theory Spec2Isabelle
  imports Main
begin

section \<open>The write path of a tablet: \<open>be/src/olap/delta_writer.cpp\<close>\<close>

text \<open>
  A \<open>DeltaWriter\<close> admits the rows of one load transaction into one tablet. The class is
  embedded as a record of its members, every method as a function that takes the object
  and the state of the collaborating singletons and returns both, updated. A method's
  result is an \<open>outcome\<close>: the status it returns, or a null pointer dereference, after
  which nothing is returned. Execution is sequential, so the push lock and the header lock
  of a tablet, which only delimit critical sections, have no counterpart in the state.
\<close>

subsection \<open>Statuses\<close>

datatype OLAPStatus =
    OLAP_SUCCESS
  | OLAP_ERR_TABLE_NOT_FOUND
  | OLAP_ERR_ROWSET_GENERATE_ID_FAILED
  | OLAP_ERR_ROWSET_WRITER_INIT
  | OLAP_ERR_ROWSET_SAVE_FAILED
  | OLAP_ERR_OTHER int

datatype outcome = Returned OLAPStatus | NullDeref

subsection \<open>Data\<close>

type_synonym TTabletId = int
type_synonym TSchemaHash = int
type_synonym TPartitionId = int
type_synonym TTransactionId = int
type_synonym PUniqueId = "int \<times> int"
type_synonym RowsetId = nat
type_synonym PTabletInfo = "TTabletId \<times> TSchemaHash"
type_synonym txn_key = "TPartitionId \<times> TTransactionId \<times> TTabletId \<times> TSchemaHash"

text \<open>A tuple holds one value per slot of the tuple descriptor; a row one cell per
  collected column index, empty where the tuple has no such slot.\<close>

type_synonym Tuple = "int list"
type_synonym Row = "int option list"

datatype KeysType = DUP_KEYS | UNIQUE_KEYS | AGG_KEYS

datatype RowsetType = ALPHA_ROWSET

datatype RowsetState = PREPARED

text \<open>\<open>tuple_desc\<close> is the list of the column names of the slots, in slot order.\<close>

record WriteRequest =
  req_tablet_id :: TTabletId
  req_schema_hash :: TSchemaHash
  partition_id :: TPartitionId
  txn_id :: TTransactionId
  load_id :: PUniqueId
  tuple_desc :: "string list"
  need_gen_rollup :: bool

text \<open>What the methods of a tablet answer: \<open>tablet_schema\<close> is the list of its column
  names, \<open>schema_change_request\<close> the tablet and schema hash that
  \<open>get_schema_change_request\<close> reports when it returns true.\<close>

record Tablet =
  tablet_id :: TTabletId
  schema_hash :: TSchemaHash
  tablet_schema :: "string list"
  keys_type :: KeysType
  construct_pending_data_dir_path :: string
  tablet_path :: string
  data_dir :: string
  schema_change_request :: "(TTabletId \<times> TSchemaHash) option"

record RowsetWriterContext =
  rowset_id :: RowsetId
  ctx_tablet_id :: TTabletId
  ctx_partition_id :: TPartitionId
  tablet_schema_hash :: TSchemaHash
  rowset_type :: RowsetType
  rowset_path_prefix :: string
  ctx_tablet_schema :: "string list"
  rowset_state :: RowsetState
  ctx_txn_id :: TTransactionId
  ctx_load_id :: PUniqueId

record RowsetWriter =
  rw_context :: "RowsetWriterContext option"
  rw_batches :: "Row list list"

record Rowset =
  rowset_meta :: RowsetWriterContext
  rowset_rows :: "Row list"

record MemTable =
  mt_schema :: "string list option"
  mt_col_ids :: "nat list"
  mt_tuple_desc :: "string list"
  mt_keys_type :: KeysType
  mt_rows :: "Row list"

record DeltaWriter =
  is_init :: bool
  req :: WriteRequest
  tablet :: "Tablet option"
  cur_rowset :: "Rowset option"
  related_rowset :: "Rowset option"
  related_tablet :: "Tablet option"
  rowset_writer :: "RowsetWriter option"
  mem_table :: "MemTable option"
  schema :: "string list option"
  col_ids :: "nat list"
  delta_written_success :: bool

subsection \<open>The collaborators\<close>

text \<open>The calls a writer makes, in the order it makes them. \<open>Init\<close> marks the entry
  of \<open>DeltaWriter::init\<close>; every other constructor is a call to a collaborator.\<close>

datatype call =
    Init
  | GetTablet TTabletId TSchemaHash
  | PrepareTxn txn_key PUniqueId
  | DeleteTxn txn_key
  | CreateDirs string
  | GetNextId string
  | WriterInit RowsetWriterContext
  | MemInsert Tuple
  | MemFlush "Row list"
  | MemClose "Row list"
  | Build
  | SaveMeta string RowsetId
  | AddUnusedRowset "Rowset option"

text \<open>The state of the singletons: the transactions registered with the transaction
  manager, the directories on disk, the number of rowset ids handed out, the rowset metas
  saved, the rowsets handed to the storage engine as unused, and the calls so far.\<close>

record world =
  txns :: "txn_key set"
  dirs :: "string set"
  next_rowset_id :: nat
  saved_metas :: "(string \<times> RowsetId \<times> RowsetWriterContext) list"
  unused_rowsets :: "Rowset option list"
  calls :: "call list"

text \<open>What the collaborators answer. None of them is defined in
  \<open>delta_writer.cpp\<close>, so each is a parameter: the tablet manager's lookup, the
  statuses of the fallible calls, the memory accounting and the merge policy of the
  memtable, the configured \<open>write_buffer_size\<close>, and whether the build defines
  \<open>BE_TEST\<close>.\<close>

record env =
  get_tablet :: "TTabletId \<Rightarrow> TSchemaHash \<Rightarrow> Tablet option"
  prepare_txn_status :: "txn_key \<Rightarrow> PUniqueId \<Rightarrow> OLAPStatus"
  create_dirs_status :: "string \<Rightarrow> OLAPStatus"
  get_next_id_status :: "string \<Rightarrow> OLAPStatus"
  rowset_writer_init_status :: "RowsetWriterContext \<Rightarrow> OLAPStatus"
  merge_row :: "KeysType \<Rightarrow> Row list \<Rightarrow> Row \<Rightarrow> Row list"
  memory_usage :: "MemTable \<Rightarrow> nat"
  flush_status :: "Row list \<Rightarrow> OLAPStatus"
  close_status :: "Row list \<Rightarrow> OLAPStatus"
  build_ok :: "RowsetWriter \<Rightarrow> bool"
  save_status :: "string \<Rightarrow> RowsetId \<Rightarrow> OLAPStatus"
  write_buffer_size :: nat
  be_test :: bool

definition emit :: "call \<Rightarrow> world \<Rightarrow> world" where
  "emit c s = s\<lparr>calls := calls s @ [c]\<rparr>"

text \<open>Modelled from the spec: \<open>TxnManager\<close> is not defined in this file. Its contract
  is \<open>prepare(partition_id, txn_id, tablet_id, schema_hash, load_id) \<rightarrow> Result\<close>, which
  registers the key when it succeeds, and an idempotent \<open>delete\<close> of a key.\<close>

definition prepare_txn :: "env \<Rightarrow> txn_key \<Rightarrow> PUniqueId \<Rightarrow> world \<Rightarrow> OLAPStatus \<times> world" where
  "prepare_txn e k l s =
     (let st = prepare_txn_status e k l; s1 = emit (PrepareTxn k l) s
      in (st, if st = OLAP_SUCCESS then s1\<lparr>txns := insert k (txns s1)\<rparr> else s1))"

definition delete_txn :: "txn_key \<Rightarrow> world \<Rightarrow> world" where
  "delete_txn k s = (emit (DeleteTxn k) s)\<lparr>txns := txns s - {k}\<rparr>"

text \<open>Modelled from the spec: the storage engine's collector is not defined in this file.
  \<open>add_unused(artifact)\<close> is fire-and-forget; the pointer it is given is recorded as it
  is passed, null included.\<close>

definition add_unused_rowset :: "Rowset option \<Rightarrow> world \<Rightarrow> world" where
  "add_unused_rowset r s = (emit (AddUnusedRowset r) s)\<lparr>unused_rowsets := unused_rowsets s @ [r]\<rparr>"

text \<open>Modelled from the spec: \<open>check_dir_existed\<close> and \<open>create_dirs\<close> are not defined in
  this file. A directory exists once \<open>create_dirs\<close> has succeeded on its path.\<close>

definition check_dir_existed :: "string \<Rightarrow> world \<Rightarrow> bool" where
  "check_dir_existed p s = (p \<in> dirs s)"

definition create_dirs :: "env \<Rightarrow> string \<Rightarrow> world \<Rightarrow> OLAPStatus \<times> world" where
  "create_dirs e p s =
     (let st = create_dirs_status e p; s1 = emit (CreateDirs p) s
      in (st, if st = OLAP_SUCCESS then s1\<lparr>dirs := insert p (dirs s1)\<rparr> else s1))"

text \<open>Modelled from the spec: \<open>RowsetIdGenerator\<close> is not defined in this file. Its
  contract is \<open>next_id(tablet_scope) \<rightarrow> Result<ArtifactId>\<close>; a successful call hands out
  the next unused id.\<close>

definition get_next_id :: "env \<Rightarrow> string \<Rightarrow> world \<Rightarrow> OLAPStatus \<times> RowsetId \<times> world" where
  "get_next_id e d s =
     (let st = get_next_id_status e d; s1 = emit (GetNextId d) s
      in if st = OLAP_SUCCESS then (st, next_rowset_id s1, s1\<lparr>next_rowset_id := Suc (next_rowset_id s1)\<rparr>)
         else (st, 0, s1))"

text \<open>Modelled from the spec: \<open>RowsetMetaManager::save\<close> is not defined in this file. Its
  contract is \<open>save(store_handle, artifact_id, artifact_metadata) \<rightarrow> Result\<close>; the store is
  named by the data directory it belongs to.\<close>

definition save :: "env \<Rightarrow> string \<Rightarrow> RowsetId \<Rightarrow> RowsetWriterContext \<Rightarrow> world \<Rightarrow> OLAPStatus \<times> world" where
  "save e d i m s =
     (let st = save_status e d i; s1 = emit (SaveMeta d i) s
      in (st, if st = OLAP_SUCCESS then s1\<lparr>saved_metas := saved_metas s1 @ [(d, i, m)]\<rparr> else s1))"

subsection \<open>The memtable and the rowset writer\<close>

text \<open>Modelled from the spec: \<open>MemTable\<close> is not defined in this file. \<open>insert(row)\<close> maps
  the row's fields through the column index mapping into schema-column order and applies
  the key model's merge policy: append for the duplicate-key model, a merge that is a
  parameter for the others. \<open>flush(builder)\<close> hands the contents to the builder as one
  batch; \<open>close(builder)\<close> is the same, for the last buffer.\<close>

definition get_slot :: "Tuple \<Rightarrow> nat \<Rightarrow> int option" where
  "get_slot t i = (if i < length t then Some (t ! i) else None)"

definition assemble_row :: "nat list \<Rightarrow> Tuple \<Rightarrow> Row" where
  "assemble_row ids t = map (get_slot t) ids"

definition mem_insert :: "env \<Rightarrow> MemTable \<Rightarrow> Tuple \<Rightarrow> MemTable" where
  "mem_insert e m t =
     (let r = assemble_row (mt_col_ids m) t
      in m\<lparr>mt_rows := (if mt_keys_type m = DUP_KEYS then mt_rows m @ [r]
                        else merge_row e (mt_keys_type m) (mt_rows m) r)\<rparr>)"

definition new_MemTable :: "string list option \<Rightarrow> nat list \<Rightarrow> string list \<Rightarrow> KeysType \<Rightarrow> MemTable" where
  "new_MemTable sch ids td kt =
     \<lparr>mt_schema = sch, mt_col_ids = ids, mt_tuple_desc = td, mt_keys_type = kt, mt_rows = []\<rparr>"

definition mem_flush :: "env \<Rightarrow> MemTable \<Rightarrow> RowsetWriter \<Rightarrow> world \<Rightarrow> OLAPStatus \<times> RowsetWriter \<times> world" where
  "mem_flush e m rw s =
     (let st = flush_status e (mt_rows m); s1 = emit (MemFlush (mt_rows m)) s
      in (st, if st = OLAP_SUCCESS then rw\<lparr>rw_batches := rw_batches rw @ [mt_rows m]\<rparr> else rw, s1))"

definition mem_close :: "env \<Rightarrow> MemTable \<Rightarrow> RowsetWriter \<Rightarrow> world \<Rightarrow> OLAPStatus \<times> RowsetWriter \<times> world" where
  "mem_close e m rw s =
     (let st = close_status e (mt_rows m); s1 = emit (MemClose (mt_rows m)) s
      in (st, if st = OLAP_SUCCESS then rw\<lparr>rw_batches := rw_batches rw @ [mt_rows m]\<rparr> else rw, s1))"

text \<open>Modelled from the spec: \<open>AlphaRowsetWriter\<close> is not defined in this file.
  \<open>build()\<close> fails, returning no rowset, if there was no successful prior initialization or
  if the underlying storage write fails; otherwise the rowset holds the batches appended,
  under the metadata of the context.\<close>

definition new_RowsetWriter :: RowsetWriter where
  "new_RowsetWriter = \<lparr>rw_context = None, rw_batches = []\<rparr>"

definition build :: "env \<Rightarrow> RowsetWriter \<Rightarrow> Rowset option" where
  "build e rw =
     (case rw_context rw of
        None \<Rightarrow> None
      | Some ctx \<Rightarrow> if build_ok e rw then Some \<lparr>rowset_meta = ctx, rowset_rows = concat (rw_batches rw)\<rparr>
                    else None)"

subsection \<open>\<open>DeltaWriter\<close>: construction and initialization\<close>

text \<open>The constructor's initializer list (lines 33 to 38) leaves \<open>_is_init\<close> out and the
  class declaration is not among the sources. Modelled from the spec: a writer just opened
  is in state \<open>Created\<close>, nothing initialized, so \<open>is_init\<close> starts false.\<close>

definition open_writer :: "WriteRequest \<Rightarrow> DeltaWriter" where
  "open_writer rq =
     \<lparr>is_init = False, req = rq, tablet = None, cur_rowset = None, related_rowset = None,
      related_tablet = None, rowset_writer = None, mem_table = None, schema = None,
      col_ids = [], delta_written_success = False\<rparr>"

text \<open>The loops of lines 130 to 137: for each column of the schema, in order, the index of
  every slot whose column name equals the column's name is appended.\<close>

fun slot_matches :: "string \<Rightarrow> string list \<Rightarrow> nat \<Rightarrow> nat list" where
  "slot_matches cn [] i = []"
| "slot_matches cn (sl # sls) i =
     (if sl = cn then i # slot_matches cn sls (Suc i) else slot_matches cn sls (Suc i))"

fun collect_col_ids :: "string list \<Rightarrow> string list \<Rightarrow> nat list" where
  "collect_col_ids [] slots = []"
| "collect_col_ids (cn # cns) slots = slot_matches cn slots 0 @ collect_col_ids cns slots"

text \<open>The block of \<open>init\<close> under the push lock (lines 69 to 100). The status of the
  second \<open>prepare_txn\<close> is dropped, and the related tablet is whatever the lookup
  answers.\<close>

definition init_txn :: "env \<Rightarrow> Tablet \<Rightarrow> DeltaWriter \<times> world \<Rightarrow> OLAPStatus \<times> DeltaWriter \<times> world" where
  "init_txn e tab ws =
     (case ws of (w, s) \<Rightarrow>
        (case prepare_txn e (partition_id (req w), txn_id (req w), req_tablet_id (req w),
                             req_schema_hash (req w)) (load_id (req w)) s of
           (st, s1) \<Rightarrow>
             if st \<noteq> OLAP_SUCCESS then (st, w, s1)
             else
               (case (if need_gen_rollup (req w) then
                        (case schema_change_request tab of
                           None \<Rightarrow> (w, s1)
                         | Some (new_tablet_id, new_schema_hash) \<Rightarrow>
                             (w\<lparr>related_tablet := get_tablet e new_tablet_id new_schema_hash\<rparr>,
                              snd (prepare_txn e (partition_id (req w), txn_id (req w),
                                                  new_tablet_id, new_schema_hash) (load_id (req w))
                                     (emit (GetTablet new_tablet_id new_schema_hash) s1))))
                      else (w, s1)) of
                  (w2, s2) \<Rightarrow>
                    if \<not> check_dir_existed (construct_pending_data_dir_path tab) s2 then
                      (case create_dirs e (construct_pending_data_dir_path tab) s2 of
                         (st2, s3) \<Rightarrow> (st2, w2, s3))
                    else (OLAP_SUCCESS, w2, s2))))"

definition writer_context :: "WriteRequest \<Rightarrow> Tablet \<Rightarrow> RowsetId \<Rightarrow> RowsetWriterContext" where
  "writer_context rq tab rid =
     \<lparr>rowset_id = rid, ctx_tablet_id = req_tablet_id rq, ctx_partition_id = partition_id rq,
      tablet_schema_hash = req_schema_hash rq, rowset_type = ALPHA_ROWSET,
      rowset_path_prefix = tablet_path tab, ctx_tablet_schema = tablet_schema tab,
      rowset_state = PREPARED, ctx_txn_id = txn_id rq, ctx_load_id = load_id rq\<rparr>"

text \<open>Lines 102 to 143, for the tablet found.\<close>

definition init_writer :: "env \<Rightarrow> Tablet \<Rightarrow> DeltaWriter \<times> world \<Rightarrow> OLAPStatus \<times> DeltaWriter \<times> world" where
  "init_writer e tab ws =
     (case ws of (w, s) \<Rightarrow>
        (case get_next_id e (data_dir tab) s of
           (st, rid, s1) \<Rightarrow>
             if st \<noteq> OLAP_SUCCESS then (OLAP_ERR_ROWSET_GENERATE_ID_FAILED, w, s1)
             else
               (let ctx = writer_context (req w) tab rid;
                    s2 = emit (WriterInit ctx) s1
                in if rowset_writer_init_status e ctx \<noteq> OLAP_SUCCESS
                   then (OLAP_ERR_ROWSET_WRITER_INIT, w\<lparr>rowset_writer := Some new_RowsetWriter\<rparr>, s2)
                   else
                     (let ids = col_ids w @ collect_col_ids (tablet_schema tab) (tuple_desc (req w))
                      in (OLAP_SUCCESS,
                          w\<lparr>rowset_writer := Some (new_RowsetWriter\<lparr>rw_context := Some ctx\<rparr>),
                            col_ids := ids,
                            schema := Some (tablet_schema tab),
                            mem_table := Some (new_MemTable (Some (tablet_schema tab)) ids
                                                 (tuple_desc (req w)) (keys_type tab)),
                            is_init := True\<rparr>,
                          s2)))))"

definition init :: "env \<Rightarrow> DeltaWriter \<times> world \<Rightarrow> OLAPStatus \<times> DeltaWriter \<times> world" where
  "init e ws =
     (case ws of (w, s) \<Rightarrow>
        (let s1 = emit (GetTablet (req_tablet_id (req w)) (req_schema_hash (req w))) (emit Init s);
             w1 = w\<lparr>tablet := get_tablet e (req_tablet_id (req w)) (req_schema_hash (req w))\<rparr>
         in case tablet w1 of
              None \<Rightarrow> (OLAP_ERR_TABLE_NOT_FOUND, w1, s1)
            | Some tab \<Rightarrow>
                (case init_txn e tab (w1, s1) of
                   (st, w2, s2) \<Rightarrow>
                     if st \<noteq> OLAP_SUCCESS then (st, w2, s2) else init_writer e tab (w2, s2))))"

text \<open>The guard that opens \<open>write\<close> and \<open>close\<close>: \<open>init\<close> runs unless \<open>_is_init\<close> is
  set.\<close>

definition ensure_init :: "env \<Rightarrow> DeltaWriter \<times> world \<Rightarrow> OLAPStatus \<times> DeltaWriter \<times> world" where
  "ensure_init e ws = (if \<not> is_init (fst ws) then init e ws else (OLAP_SUCCESS, ws))"

subsection \<open>\<open>DeltaWriter::write\<close>\<close>

text \<open>\<open>write\<close> is a keyword of the proof language, so the method is \<open>write_tuple\<close>
  here. Its body after the guard, lines 154 to 162, is \<open>write_row\<close>: a failed flush
  returns before the memtable is replaced.\<close>

definition write_row :: "env \<Rightarrow> Tuple \<Rightarrow> DeltaWriter \<times> world \<Rightarrow> outcome \<times> DeltaWriter \<times> world" where
  "write_row e t ws =
     (case ws of (w, s) \<Rightarrow>
        (case mem_table w of
           None \<Rightarrow> (NullDeref, w, s)
         | Some m \<Rightarrow>
             (let m1 = mem_insert e m t;
                  w1 = w\<lparr>mem_table := Some m1\<rparr>;
                  s1 = emit (MemInsert t) s
              in if memory_usage e m1 \<ge> write_buffer_size e then
                   (case rowset_writer w1 of
                      None \<Rightarrow> (NullDeref, w1, s1)
                    | Some rw \<Rightarrow>
                        (case mem_flush e m1 rw s1 of
                           (st, rw2, s2) \<Rightarrow>
                             if st \<noteq> OLAP_SUCCESS then (Returned st, w1\<lparr>rowset_writer := Some rw2\<rparr>, s2)
                             else
                               (case tablet w1 of
                                  None \<Rightarrow> (NullDeref, w1\<lparr>rowset_writer := Some rw2, mem_table := None\<rparr>, s2)
                                | Some tab \<Rightarrow>
                                    (Returned OLAP_SUCCESS,
                                     w1\<lparr>rowset_writer := Some rw2,
                                        mem_table := Some (new_MemTable (schema w1) (col_ids w1)
                                                             (tuple_desc (req w1)) (keys_type tab))\<rparr>,
                                     s2))))
                 else (Returned OLAP_SUCCESS, w1, s1))))"

definition write_tuple :: "env \<Rightarrow> Tuple \<Rightarrow> DeltaWriter \<times> world \<Rightarrow> outcome \<times> DeltaWriter \<times> world" where
  "write_tuple e t ws =
     (case ensure_init e ws of
        (st, ws1) \<Rightarrow> if st \<noteq> OLAP_SUCCESS then (Returned st, ws1) else write_row e t ws1)"

subsection \<open>\<open>DeltaWriter::close\<close>\<close>

text \<open>Lines 172 to 184: the last memtable is closed into the rowset writer, the rowset is
  built and its meta saved. \<open>build\<close> may return no rowset; the result is dereferenced
  unchecked.\<close>

definition close_cur :: "env \<Rightarrow> DeltaWriter \<times> world \<Rightarrow> outcome \<times> DeltaWriter \<times> world" where
  "close_cur e ws =
     (case ws of (w, s) \<Rightarrow>
        (case mem_table w of
           None \<Rightarrow> (NullDeref, w, s)
         | Some m \<Rightarrow>
             (case rowset_writer w of
                None \<Rightarrow> (NullDeref, w, s)
              | Some rw \<Rightarrow>
                  (case mem_close e m rw s of
                     (st, rw1, s1) \<Rightarrow>
                       if st \<noteq> OLAP_SUCCESS then (Returned st, w\<lparr>rowset_writer := Some rw1\<rparr>, s1)
                       else
                         (let w1 = w\<lparr>rowset_writer := Some rw1, cur_rowset := build e rw1\<rparr>;
                              s2 = emit Build s1
                          in case tablet w1 of
                               None \<Rightarrow> (NullDeref, w1, s2)
                             | Some tab \<Rightarrow>
                                 (case cur_rowset w1 of
                                    None \<Rightarrow> (NullDeref, w1, s2)
                                  | Some r \<Rightarrow>
                                      (case save e (data_dir tab) (rowset_id (rowset_meta r)) (rowset_meta r) s2 of
                                         (res, s3) \<Rightarrow>
                                           if res \<noteq> OLAP_SUCCESS then (Returned OLAP_ERR_ROWSET_SAVE_FAILED, w1, s3)
                                           else (Returned res, w1, s3))))))))"

text \<open>Lines 186 to 214, for a related tablet, entered with \<open>res\<close> as the first save left it.
  The call of \<open>schema_version_convert\<close> is commented out in the source, so nothing
  assigns \<open>_related_rowset\<close> before it is dereferenced for the second save.\<close>

definition close_related :: "env \<Rightarrow> Tablet \<Rightarrow> OLAPStatus \<Rightarrow> DeltaWriter \<times> world \<Rightarrow> outcome \<times> DeltaWriter \<times> world" where
  "close_related e rtab res ws =
     (case ws of (w, s) \<Rightarrow>
        (case (if \<not> check_dir_existed (construct_pending_data_dir_path rtab) s
               then create_dirs e (construct_pending_data_dir_path rtab) s
               else (OLAP_SUCCESS, s)) of
           (st, s1) \<Rightarrow>
             if st \<noteq> OLAP_SUCCESS then (Returned st, w, s1)
             else if res \<noteq> OLAP_SUCCESS then (Returned res, w, s1)
             else
               (case related_rowset w of
                  None \<Rightarrow> (NullDeref, w, s1)
                | Some rr \<Rightarrow>
                    (case save e (data_dir rtab) (rowset_id (rowset_meta rr)) (rowset_meta rr) s1 of
                       (res2, s2) \<Rightarrow>
                         if res2 \<noteq> OLAP_SUCCESS then (Returned OLAP_ERR_ROWSET_SAVE_FAILED, w, s2)
                         else (Returned OLAP_SUCCESS, w, s2)))))"

text \<open>Lines 216 to 225, compiled unless \<open>BE_TEST\<close> is defined.\<close>

definition add_tablet_infos :: "env \<Rightarrow> DeltaWriter \<Rightarrow> PTabletInfo list \<Rightarrow> PTabletInfo list option" where
  "add_tablet_infos e w tablet_vec =
     (if be_test e then Some tablet_vec
      else
        (case tablet w of
           None \<Rightarrow> None
         | Some tab \<Rightarrow>
             Some (tablet_vec @ [(tablet_id tab, schema_hash tab)] @
                   (case related_tablet w of
                      None \<Rightarrow> []
                    | Some rtab \<Rightarrow> [(tablet_id rtab, schema_hash rtab)]))))"

definition close_finish :: "env \<Rightarrow> DeltaWriter \<times> world \<Rightarrow> PTabletInfo list \<Rightarrow>
    outcome \<times> DeltaWriter \<times> world \<times> PTabletInfo list" where
  "close_finish e ws tablet_vec =
     (case ws of (w, s) \<Rightarrow>
        (case add_tablet_infos e w tablet_vec of
           None \<Rightarrow> (NullDeref, w, s, tablet_vec)
         | Some tv \<Rightarrow> (Returned OLAP_SUCCESS, w\<lparr>delta_written_success := True\<rparr>, s, tv)))"

definition close :: "env \<Rightarrow> DeltaWriter \<times> world \<Rightarrow> PTabletInfo list \<Rightarrow>
    outcome \<times> DeltaWriter \<times> world \<times> PTabletInfo list" where
  "close e ws tablet_vec =
     (case ensure_init e ws of
        (st, ws1) \<Rightarrow>
          if st \<noteq> OLAP_SUCCESS then (Returned st, fst ws1, snd ws1, tablet_vec)
          else
            (case close_cur e ws1 of
               (r, w2, s2) \<Rightarrow>
                 if r \<noteq> Returned OLAP_SUCCESS then (r, w2, s2, tablet_vec)
                 else
                   (case related_tablet w2 of
                      None \<Rightarrow> close_finish e (w2, s2) tablet_vec
                    | Some rtab \<Rightarrow>
                        (case close_related e rtab OLAP_SUCCESS (w2, s2) of
                           (r3, w3, s3) \<Rightarrow>
                             if r3 \<noteq> Returned OLAP_SUCCESS then (r3, w3, s3, tablet_vec)
                             else close_finish e (w3, s3) tablet_vec))))"

subsection \<open>\<open>DeltaWriter::cancel\<close> and the destructor\<close>

text \<open>\<open>cancel\<close> returns success; its \<open>DCHECK\<close> that the writer was not initialized is
  compiled into debug builds only and changes no state.\<close>

definition cancel :: "DeltaWriter \<Rightarrow> OLAPStatus" where
  "cancel w = OLAP_SUCCESS"

definition garbage_collection :: "DeltaWriter \<times> world \<Rightarrow> world" where
  "garbage_collection ws =
     (case ws of (w, s) \<Rightarrow>
        (let s1 = add_unused_rowset (cur_rowset w)
                    (delete_txn (partition_id (req w), txn_id (req w), req_tablet_id (req w),
                                 req_schema_hash (req w)) s)
         in case related_tablet w of
              None \<Rightarrow> s1
            | Some rtab \<Rightarrow>
                add_unused_rowset (related_rowset w)
                  (delete_txn (partition_id (req w), txn_id (req w), tablet_id rtab, schema_hash rtab) s1)))"

text \<open>The destructor; nothing in this file adds to \<open>_segment_group_vec\<close>, so the loop
  that releases its elements does nothing, and the two deletions free memory only.\<close>

definition teardown :: "DeltaWriter \<times> world \<Rightarrow> world" where
  "teardown ws = (if \<not> delta_written_success (fst ws) then garbage_collection ws else snd ws)"

subsection \<open>Runs of a writer\<close>

text \<open>A caller's operations on one writer, run in order; a null pointer dereference ends
  the run. The outcomes are returned in order with the final state.\<close>

datatype op = Write Tuple | Close

fun run :: "env \<Rightarrow> op list \<Rightarrow> DeltaWriter \<times> world \<times> PTabletInfo list \<Rightarrow>
    outcome list \<times> DeltaWriter \<times> world \<times> PTabletInfo list" where
  "run e [] st = ([], st)"
| "run e (Write t # ops) (w, s, tv) =
     (case write_tuple e t (w, s) of
        (r, w1, s1) \<Rightarrow>
          if r = NullDeref then ([r], w1, s1, tv)
          else (case run e ops (w1, s1, tv) of (rs, st) \<Rightarrow> (r # rs, st)))"
| "run e (Close # ops) (w, s, tv) =
     (case close e (w, s) tv of
        (r, w1, s1, tv1) \<Rightarrow>
          if r = NullDeref then ([r], w1, s1, tv1)
          else (case run e ops (w1, s1, tv1) of (rs, st) \<Rightarrow> (r # rs, st)))"

subsection \<open>Counting and sample collaborators\<close>

text \<open>The number of times \<open>init\<close> was entered.\<close>

definition init_runs :: "world \<Rightarrow> nat" where
  "init_runs s = count_list (calls s) Init"

text \<open>A tablet with columns a, b, c and no schema change under way; the same tablet with a
  schema change to tablet 2 under way; and tablet 2.\<close>

definition tablet_T :: Tablet where
  "tablet_T = \<lparr>tablet_id = 1, schema_hash = 10, tablet_schema = [''a'', ''b'', ''c''],
     keys_type = DUP_KEYS, construct_pending_data_dir_path = ''/t1/pending'',
     tablet_path = ''/t1'', data_dir = ''/d1'', schema_change_request = None\<rparr>"

definition tablet_T_changing :: Tablet where
  "tablet_T_changing = tablet_T\<lparr>schema_change_request := Some (2, 20)\<rparr>"

definition tablet_R :: Tablet where
  "tablet_R = \<lparr>tablet_id = 2, schema_hash = 20, tablet_schema = [''a'', ''b'', ''c'', ''d''],
     keys_type = DUP_KEYS, construct_pending_data_dir_path = ''/t2/pending'',
     tablet_path = ''/t2'', data_dir = ''/d1'', schema_change_request = None\<rparr>"

text \<open>Collaborators that all succeed, with a buffer threshold of two rows.\<close>

definition env_ok :: env where
  "env_ok = \<lparr>get_tablet = (\<lambda>i h. if i = 1 \<and> h = 10 then Some tablet_T else None),
     prepare_txn_status = (\<lambda>k l. OLAP_SUCCESS),
     create_dirs_status = (\<lambda>p. OLAP_SUCCESS),
     get_next_id_status = (\<lambda>d. OLAP_SUCCESS),
     rowset_writer_init_status = (\<lambda>c. OLAP_SUCCESS),
     merge_row = (\<lambda>k rs r. rs @ [r]),
     memory_usage = (\<lambda>m. length (mt_rows m)),
     flush_status = (\<lambda>rs. OLAP_SUCCESS),
     close_status = (\<lambda>rs. OLAP_SUCCESS),
     build_ok = (\<lambda>rw. True),
     save_status = (\<lambda>d i. OLAP_SUCCESS),
     write_buffer_size = 2,
     be_test = False\<rparr>"

text \<open>Variants: no tablet at all; a flush that fails, at a threshold of one row; a schema
  change to tablet 2 under way; the same with tablet 2 gone from the tablet manager; the
  same with the transaction manager refusing the transaction for tablet 2.\<close>

definition env_missing :: env where
  "env_missing = env_ok\<lparr>get_tablet := (\<lambda>i h. None)\<rparr>"

definition env_flush_fails :: env where
  "env_flush_fails = env_ok\<lparr>flush_status := (\<lambda>rs. OLAP_ERR_OTHER (- 1)), write_buffer_size := 1\<rparr>"

definition env_changing :: env where
  "env_changing = env_ok\<lparr>get_tablet :=
     (\<lambda>i h. if i = 1 \<and> h = 10 then Some tablet_T_changing
            else if i = 2 \<and> h = 20 then Some tablet_R else None)\<rparr>"

definition env_related_gone :: env where
  "env_related_gone = env_ok\<lparr>get_tablet :=
     (\<lambda>i h. if i = 1 \<and> h = 10 then Some tablet_T_changing else None)\<rparr>"

definition env_related_refused :: env where
  "env_related_refused = env_changing\<lparr>prepare_txn_status :=
     (\<lambda>k l. if k = (7, 42, 2, 20) then OLAP_ERR_OTHER (- 1) else OLAP_SUCCESS)\<rparr>"

text \<open>A request for tablet 1 whose tuples carry the fields c, a, b; the same request with
  the schema change tracked; and a state of the collaborators with nothing in it.\<close>

definition req_T :: WriteRequest where
  "req_T = \<lparr>req_tablet_id = 1, req_schema_hash = 10, partition_id = 7, txn_id = 42,
     load_id = (0, 1), tuple_desc = [''c'', ''a'', ''b''], need_gen_rollup = False\<rparr>"

definition req_T_rollup :: WriteRequest where
  "req_T_rollup = req_T\<lparr>need_gen_rollup := True\<rparr>"

definition world0 :: world where
  "world0 = \<lparr>txns = {}, dirs = {}, next_rowset_id = 0, saved_metas = [], unused_rowsets = [],
     calls = []\<rparr>"

text \<open>The same collaborators with a threshold of one row, so that every insert reaches
  it.\<close>

definition env_threshold_one :: env where
  "env_threshold_one = env_ok\<lparr>write_buffer_size := 1\<rparr>"

text \<open>The writer and the collaborators' state that a successful initialization for
  \<open>req_T\<close> leaves, with the memtable and the rowset writer it constructs.\<close>

definition writer_ready :: DeltaWriter where
  "writer_ready = fst (snd (init env_ok (open_writer req_T, world0)))"

definition world_ready :: world where
  "world_ready = snd (snd (init env_ok (open_writer req_T, world0)))"

definition memtable_T :: MemTable where
  "memtable_T = new_MemTable (Some [''a'', ''b'', ''c'']) [1, 2, 0] [''c'', ''a'', ''b''] DUP_KEYS"

definition rowset_writer_T :: RowsetWriter where
  "rowset_writer_T = \<lparr>rw_context = Some (writer_context req_T tablet_T 0), rw_batches = []\<rparr>"

text \<open>The components of what \<open>close\<close> and \<open>run\<close> return.\<close>

definition writer_after :: "'r \<times> DeltaWriter \<times> world \<times> PTabletInfo list \<Rightarrow> DeltaWriter" where
  "writer_after x = fst (snd x)"

definition world_after :: "'r \<times> DeltaWriter \<times> world \<times> PTabletInfo list \<Rightarrow> world" where
  "world_after x = fst (snd (snd x))"

definition infos_after :: "'r \<times> DeltaWriter \<times> world \<times> PTabletInfo list \<Rightarrow> PTabletInfo list" where
  "infos_after x = snd (snd (snd x))"

text \<open>What holds of every writer that operations on a writer just opened lead to: once
  \<open>_is_init\<close> is set, the writer has its memtable, its rowset writer and its tablet.\<close>

definition wired :: "DeltaWriter \<Rightarrow> bool" where
  "wired w = (is_init w \<longrightarrow> mem_table w \<noteq> None \<and> rowset_writer w \<noteq> None \<and> tablet w \<noteq> None)"

section \<open>Properties\<close>

subsection \<open>What a successful initialization leaves\<close>

lemmas init_defs = init_def init_txn_def init_writer_def prepare_txn_def create_dirs_def
  get_next_id_def emit_def check_dir_existed_def writer_context_def new_MemTable_def
  new_RowsetWriter_def open_writer_def Let_def

lemmas sample_defs = env_ok_def req_T_def world0_def tablet_T_def

lemmas op_defs = write_tuple_def ensure_init_def write_row_def mem_insert_def assemble_row_def
  get_slot_def mem_flush_def close_def close_cur_def close_related_def close_finish_def
  add_tablet_infos_def mem_close_def build_def save_def teardown_def garbage_collection_def
  delete_txn_def add_unused_rowset_def writer_after_def world_after_def infos_after_def init_runs_def

lemmas variant_defs = env_missing_def env_flush_fails_def env_changing_def env_related_gone_def
  env_related_refused_def req_T_rollup_def tablet_T_changing_def tablet_R_def

lemma init_txn_keeps:
  "init_txn e tab (w0, s0) = (st, w, s) \<Longrightarrow>
     req w = req w0 \<and> is_init w = is_init w0 \<and> tablet w = tablet w0 \<and> cur_rowset w = cur_rowset w0 \<and>
     related_rowset w = related_rowset w0 \<and> rowset_writer w = rowset_writer w0 \<and>
     mem_table w = mem_table w0 \<and> schema w = schema w0 \<and> col_ids w = col_ids w0 \<and>
     delta_written_success w = delta_written_success w0"
  by (auto simp: init_txn_def split: prod.splits if_splits option.splits)

lemma init_writer_success:
  "init_writer e tab (w0, s0) = (OLAP_SUCCESS, w, s) \<Longrightarrow>
     is_init w \<and> req w = req w0 \<and> tablet w = tablet w0 \<and> cur_rowset w = cur_rowset w0 \<and>
     related_rowset w = related_rowset w0 \<and> related_tablet w = related_tablet w0 \<and>
     delta_written_success w = delta_written_success w0 \<and>
     schema w = Some (tablet_schema tab) \<and>
     col_ids w = col_ids w0 @ collect_col_ids (tablet_schema tab) (tuple_desc (req w0)) \<and>
     mem_table w = Some (new_MemTable (Some (tablet_schema tab)) (col_ids w) (tuple_desc (req w0)) (keys_type tab)) \<and>
     (\<exists>rid. rowset_writer w = Some \<lparr>rw_context = Some (writer_context (req w0) tab rid), rw_batches = []\<rparr>)"
  by (auto simp: init_writer_def Let_def new_RowsetWriter_def split: prod.splits if_splits)

lemma init_success:
  "init e (w0, s0) = (OLAP_SUCCESS, w, s) \<Longrightarrow>
     \<exists>tab. get_tablet e (req_tablet_id (req w0)) (req_schema_hash (req w0)) = Some tab \<and>
     is_init w \<and> req w = req w0 \<and> tablet w = Some tab \<and> cur_rowset w = cur_rowset w0 \<and>
     related_rowset w = related_rowset w0 \<and>
     delta_written_success w = delta_written_success w0 \<and>
     schema w = Some (tablet_schema tab) \<and>
     col_ids w = col_ids w0 @ collect_col_ids (tablet_schema tab) (tuple_desc (req w0)) \<and>
     mem_table w = Some (new_MemTable (Some (tablet_schema tab)) (col_ids w) (tuple_desc (req w0)) (keys_type tab)) \<and>
     (\<exists>rid. rowset_writer w = Some \<lparr>rw_context = Some (writer_context (req w0) tab rid), rw_batches = []\<rparr>)"
proof -
  assume a: "init e (w0, s0) = (OLAP_SUCCESS, w, s)"
  then obtain tab where t: "get_tablet e (req_tablet_id (req w0)) (req_schema_hash (req w0)) = Some tab"
    by (auto simp: init_def Let_def split: option.splits)
  obtain st w2 s2 where it:
    "init_txn e tab (w0\<lparr>tablet := Some tab\<rparr>,
       emit (GetTablet (req_tablet_id (req w0)) (req_schema_hash (req w0))) (emit Init s0)) = (st, w2, s2)"
    by (metis prod_cases3)
  from a t it have iw: "init_writer e tab (w2, s2) = (OLAP_SUCCESS, w, s)"
    by (auto simp: init_def Let_def split: if_splits)
  from init_txn_keeps [OF it] init_writer_success [OF iw] t show ?thesis
    by auto
qed

lemma init_ok_sample: "fst (init env_ok (open_writer req_T, world0)) = OLAP_SUCCESS"
  by (simp add: init_defs sample_defs)

subsection \<open>The column index mapping\<close>

text \<open>The loops of lines 130 to 137 collect, column by column, the indices of the slots of
  that name in ascending order; where the slot names are distinct and every column has a
  slot, that is one index per column, the index of the slot that bears the column's name.\<close>

lemma slot_matches_filter:
  "slot_matches cn sls i = map (\<lambda>j. j + i) (filter (\<lambda>j. sls ! j = cn) [0..<length sls])"
proof (induction sls arbitrary: i)
  case Nil
  then show ?case by simp
next
  case (Cons sl sls)
  have u: "[0..<length (sl # sls)] = 0 # map Suc [0..<length sls]"
    by (simp add: upt_conv_Cons map_Suc_upt del: upt_Suc)
  show ?case
    unfolding u by (simp add: Cons.IH filter_map comp_def)
qed

lemma collect_col_ids_filter:
  "collect_col_ids cns slots =
     concat (map (\<lambda>cn. filter (\<lambda>j. slots ! j = cn) [0..<length slots]) cns)"
  by (induction cns) (simp_all add: slot_matches_filter)

lemma assemble_matches:
  assumes "distinct sls" and "length t = length sls"
  shows "map (get_slot (pre @ t)) (slot_matches cn sls (length pre)) =
           (case map_of (zip sls t) cn of None \<Rightarrow> [] | Some v \<Rightarrow> [Some v])"
  using assms
proof (induction sls arbitrary: t pre)
  case Nil
  then show ?case by simp
next
  case (Cons sl sls)
  then obtain v t' where t: "t = v # t'" and l: "length t' = length sls"
    by (cases t) auto
  have ih: "map (get_slot ((pre @ [v]) @ t')) (slot_matches cn sls (length (pre @ [v]))) =
           (case map_of (zip sls t') cn of None \<Rightarrow> [] | Some v \<Rightarrow> [Some v])"
    using Cons.IH [of t' "pre @ [v]"] Cons.prems(1) l by simp
  show ?case
  proof (cases "sl = cn")
    case True
    then have "cn \<notin> set sls" using Cons.prems(1) by simp
    then have "map_of (zip sls t') cn = None"
      by (metis l map_of_zip_is_None)
    with ih True t show ?thesis by (simp add: get_slot_def nth_append)
  next
    case False
    with ih t show ?thesis by simp
  qed
qed

lemma assemble_collect:
  assumes "distinct slots" and "length t = length slots" and "set cns \<subseteq> set slots"
  shows "assemble_row (collect_col_ids cns slots) t = map (map_of (zip slots t)) cns"
  using assms(3)
proof (induction cns)
  case Nil
  then show ?case by (simp add: assemble_row_def)
next
  case (Cons cn cns)
  then have "cn \<in> set slots" by simp
  then obtain v where v: "map_of (zip slots t) cn = Some v"
    by (metis assms(2) map_of_zip_is_None not_Some_eq)
  have "map (get_slot t) (slot_matches cn slots 0) = [Some v]"
    using assemble_matches [OF assms(1,2), of "[]" cn] v by simp
  with Cons v show ?case by (simp add: assemble_row_def)
qed


lemma slot_matches_single:
  assumes "distinct sls" and "cn \<in> set sls"
  shows "\<exists>j<length sls. sls ! j = cn \<and> slot_matches cn sls i = [j + i]"
  using assms
proof (induction sls arbitrary: i)
  case Nil
  then show ?case by simp
next
  case (Cons sl sls)
  show ?case
  proof (cases "sl = cn")
    case True
    then have "cn \<notin> set sls" using Cons.prems(1) by simp
    then have "filter (\<lambda>j. sls ! j = cn) [0..<length sls] = []"
      by (auto simp: filter_empty_conv)
    then have "slot_matches cn sls (Suc i) = []" by (simp add: slot_matches_filter)
    with True show ?thesis by auto
  next
    case False
    with Cons.prems have "distinct sls" "cn \<in> set sls" by auto
    from Cons.IH [OF this, of "Suc i"] obtain j where
      "j < length sls" "sls ! j = cn" "slot_matches cn sls (Suc i) = [j + Suc i]" by blast
    with False have "Suc j < length (sl # sls) \<and> (sl # sls) ! Suc j = cn \<and>
        slot_matches cn (sl # sls) i = [Suc j + i]" by simp
    then show ?thesis by blast
  qed
qed

lemma collect_col_ids_names:
  assumes "distinct slots" and "set cns \<subseteq> set slots"
  shows "map ((!) slots) (collect_col_ids cns slots) = cns \<and>
         length (collect_col_ids cns slots) = length cns"
  using assms(2)
proof (induction cns)
  case Nil
  then show ?case by simp
next
  case (Cons cn cns)
  then have "cn \<in> set slots" by simp
  from slot_matches_single [OF assms(1) this, of 0] obtain j where
    "j < length slots" "slots ! j = cn" "slot_matches cn slots 0 = [j]" by auto
  with Cons show ?case by simp
qed

text \<open>C9. The column index mapping built at initialization routes the fields of a tuple
  into schema-column order. After a successful initialization of a writer just opened, the
  mapping is, for each column of the tablet schema in order, the indices of the slots of
  the tuple descriptor that bear the column's name; the memtable is constructed empty over
  that mapping, and for the duplicate-key model an insert stores the row assembled through
  it. Whenever the slot names are distinct and every column has a slot, the mapping has one
  entry per column, the slot at entry k bears the name of column k, and the row assembled
  from a tuple holds, column by column in schema order, the value of the field of the
  column's name. In particular, for the distinct columns a, b, c and the fields c, a, b
  the mapping is [1, 2, 0] and the field values (vc, va, vb) are assembled to (va, vb,
  vc).\<close>

theorem C9_col_ids_route:
  assumes "init e (open_writer rq, s) = (OLAP_SUCCESS, w, s')"
    and "get_tablet e (req_tablet_id rq) (req_schema_hash rq) = Some tab"
  shows "col_ids w =
           concat (map (\<lambda>cn. filter (\<lambda>j. tuple_desc rq ! j = cn) [0..<length (tuple_desc rq)])
                       (tablet_schema tab)) \<and>
         (\<exists>m. mem_table w = Some m \<and> mt_col_ids m = col_ids w \<and> mt_rows m = [] \<and>
              (keys_type tab = DUP_KEYS \<longrightarrow> mt_rows (mem_insert e m t) = [assemble_row (col_ids w) t])) \<and>
         (distinct (tuple_desc rq) \<and> set (tablet_schema tab) \<subseteq> set (tuple_desc rq) \<and>
          length t = length (tuple_desc rq) \<longrightarrow>
            length (col_ids w) = length (tablet_schema tab) \<and>
            map ((!) (tuple_desc rq)) (col_ids w) = tablet_schema tab \<and>
            assemble_row (col_ids w) t = map (map_of (zip (tuple_desc rq) t)) (tablet_schema tab)) \<and>
         (distinct [a, b, c] \<and> tablet_schema tab = [a, b, c] \<and> tuple_desc rq = [c, a, b] \<longrightarrow>
            col_ids w = [1, 2, 0] \<and>
            assemble_row (col_ids w) [vc, va, vb] = [Some va, Some vb, Some vc])"
proof -
  from init_success [OF assms(1)] assms(2)
  have c: "col_ids w = collect_col_ids (tablet_schema tab) (tuple_desc rq)"
    and m: "mem_table w = Some (new_MemTable (Some (tablet_schema tab)) (col_ids w) (tuple_desc rq) (keys_type tab))"
    by (auto simp: open_writer_def)
  have p1: "col_ids w =
           concat (map (\<lambda>cn. filter (\<lambda>j. tuple_desc rq ! j = cn) [0..<length (tuple_desc rq)])
                       (tablet_schema tab))"
    using c by (simp add: collect_col_ids_filter)
  have p2: "\<exists>m. mem_table w = Some m \<and> mt_col_ids m = col_ids w \<and> mt_rows m = [] \<and>
              (keys_type tab = DUP_KEYS \<longrightarrow> mt_rows (mem_insert e m t) = [assemble_row (col_ids w) t])"
    using m by (simp add: new_MemTable_def mem_insert_def)
  have p3: "distinct (tuple_desc rq) \<and> set (tablet_schema tab) \<subseteq> set (tuple_desc rq) \<and>
          length t = length (tuple_desc rq) \<longrightarrow>
            length (col_ids w) = length (tablet_schema tab) \<and>
            map ((!) (tuple_desc rq)) (col_ids w) = tablet_schema tab \<and>
            assemble_row (col_ids w) t = map (map_of (zip (tuple_desc rq) t)) (tablet_schema tab)"
    using c collect_col_ids_names [of "tuple_desc rq" "tablet_schema tab"]
      assemble_collect [of "tuple_desc rq" t "tablet_schema tab"] by simp
  have p4: "distinct [a, b, c] \<and> tablet_schema tab = [a, b, c] \<and> tuple_desc rq = [c, a, b] \<longrightarrow>
            col_ids w = [1, 2, 0] \<and>
            assemble_row (col_ids w) [vc, va, vb] = [Some va, Some vb, Some vc]"
    using c by (auto simp: assemble_row_def get_slot_def)
  from p1 p2 p3 p4 show ?thesis by blast
qed

text \<open>C9, a witness: the sample request carries the fields c, a, b for the sample tablet
  with the columns a, b, c; the mapping is [1, 2, 0] and the tuple (30, 10, 20) is stored
  as the row (10, 20, 30).\<close>

theorem C9_col_ids_route_witness:
  "fst (init env_ok (open_writer req_T, world0)) = OLAP_SUCCESS \<and>
   get_tablet env_ok (req_tablet_id req_T) (req_schema_hash req_T) = Some tablet_T \<and>
   keys_type tablet_T = DUP_KEYS \<and>
   distinct (tuple_desc req_T) \<and> set (tablet_schema tablet_T) \<subseteq> set (tuple_desc req_T) \<and>
   length [30, 10, 20 :: int] = length (tuple_desc req_T) \<and>
   distinct [''a'', ''b'', ''c''] \<and> tablet_schema tablet_T = [''a'', ''b'', ''c''] \<and>
   tuple_desc req_T = [''c'', ''a'', ''b''] \<and>
   col_ids writer_ready = [1, 2, 0] \<and>
   map ((!) (tuple_desc req_T)) (col_ids writer_ready) = [''a'', ''b'', ''c''] \<and>
   assemble_row (col_ids writer_ready) [30, 10, 20] = [Some 10, Some 20, Some 30] \<and>
   (\<exists>m. mem_table writer_ready = Some m \<and> mt_col_ids m = [1, 2, 0] \<and>
        mt_rows (mem_insert env_ok m [30, 10, 20]) = [[Some 10, Some 20, Some 30]])"
proof -
  have g: "get_tablet env_ok (req_tablet_id req_T) (req_schema_hash req_T) = Some tablet_T"
    by (simp add: sample_defs)
  have f: "keys_type tablet_T = DUP_KEYS" "distinct (tuple_desc req_T)"
    "set (tablet_schema tablet_T) \<subseteq> set (tuple_desc req_T)"
    "length [30, 10, 20 :: int] = length (tuple_desc req_T)"
    "distinct [''a'', ''b'', ''c'']" "tablet_schema tablet_T = [''a'', ''b'', ''c'']"
    "tuple_desc req_T = [''c'', ''a'', ''b'']"
    by (simp_all add: tablet_T_def req_T_def)
  have i: "init env_ok (open_writer req_T, world0) = (OLAP_SUCCESS, writer_ready, world_ready)"
    using init_ok_sample unfolding writer_ready_def world_ready_def by (metis prod.collapse)
  from C9_col_ids_route [OF i g, of "[30, 10, 20]" "''a''" "''b''" "''c''" 30 10 20] g f init_ok_sample
  show ?thesis by auto
qed

subsection \<open>How often \<open>init\<close> runs\<close>

lemma init_success_is_init:
  "fst (init e (w, s)) = OLAP_SUCCESS \<Longrightarrow> is_init (fst (snd (init e (w, s))))"
  using init_success [of e w s "fst (snd (init e (w, s)))" "snd (snd (init e (w, s)))"]
  by (metis prod.collapse)

lemma init_txn_runs:
  "init_runs (snd (snd (init_txn e tab (w, s)))) = init_runs s"
  by (auto simp: init_txn_def init_runs_def prepare_txn_def create_dirs_def emit_def
      check_dir_existed_def Let_def split: prod.splits option.splits)

lemma init_writer_runs:
  "init_runs (snd (snd (init_writer e tab (w, s)))) = init_runs s"
  by (auto simp: init_writer_def init_runs_def get_next_id_def emit_def Let_def split: prod.splits)

lemma init_runs_init:
  "init_runs (snd (snd (init e (w, s)))) = Suc (init_runs s)"
proof (cases "get_tablet e (req_tablet_id (req w)) (req_schema_hash (req w))")
  case None
  then show ?thesis by (simp add: init_def init_runs_def emit_def Let_def)
next
  case (Some tab)
  let ?s1 = "emit (GetTablet (req_tablet_id (req w)) (req_schema_hash (req w))) (emit Init s)"
  obtain st w2 s2 where it: "init_txn e tab (w\<lparr>tablet := Some tab\<rparr>, ?s1) = (st, w2, s2)"
    by (metis prod_cases3)
  have "init_runs s2 = init_runs ?s1"
    using init_txn_runs [of e tab "w\<lparr>tablet := Some tab\<rparr>" ?s1] it by simp
  moreover have "init_runs ?s1 = Suc (init_runs s)"
    by (simp add: init_runs_def emit_def)
  moreover have "init_runs (snd (snd (init_writer e tab (w2, s2)))) = init_runs s2"
    by (rule init_writer_runs)
  ultimately show ?thesis
    using Some it by (simp add: init_def Let_def)
qed

lemma write_row_runs:
  "init_runs (snd (snd (write_row e t (w, s)))) = init_runs s"
  by (auto simp: write_row_def init_runs_def mem_flush_def emit_def Let_def
      split: prod.splits option.splits)

lemma write_row_is_init:
  "is_init w \<Longrightarrow> is_init (fst (snd (write_row e t (w, s))))"
  by (auto simp: write_row_def mem_flush_def Let_def split: prod.splits option.splits)

lemma write_tuple_initialized:
  "is_init w \<Longrightarrow> is_init (fst (snd (write_tuple e t (w, s)))) \<and>
     init_runs (snd (snd (write_tuple e t (w, s)))) = init_runs s"
  by (simp add: write_tuple_def ensure_init_def write_row_runs write_row_is_init)

lemma close_cur_runs:
  "init_runs (snd (snd (close_cur e (w, s)))) = init_runs s"
  by (auto simp: close_cur_def init_runs_def mem_close_def save_def emit_def Let_def
      split: prod.splits option.splits)

lemma close_cur_is_init:
  "is_init w \<Longrightarrow> is_init (fst (snd (close_cur e (w, s))))"
  by (auto simp: close_cur_def mem_close_def save_def Let_def split: prod.splits option.splits)

lemma close_related_runs:
  "init_runs (snd (snd (close_related e rtab res (w, s)))) = init_runs s"
  by (auto simp: close_related_def init_runs_def create_dirs_def save_def emit_def Let_def
      check_dir_existed_def split: prod.splits option.splits)

lemma close_related_is_init:
  "is_init (fst (snd (close_related e rtab res (w, s)))) = is_init w"
  by (auto simp: close_related_def create_dirs_def save_def Let_def split: prod.splits option.splits)

lemma close_finish_runs:
  "init_runs (world_after (close_finish e (w, s) tv)) = init_runs s \<and>
   is_init (writer_after (close_finish e (w, s) tv)) = is_init w"
  by (auto simp: close_finish_def world_after_def writer_after_def split: option.splits)

text \<open>The part of \<open>close\<close> after the guard neither runs \<open>init\<close> nor clears
  \<open>_is_init\<close>.\<close>

lemma close_after_guard:
  "init_runs (world_after (case close_cur e (w, s) of
               (r, w2, s2) \<Rightarrow>
                 if r \<noteq> Returned OLAP_SUCCESS then (r, w2, s2, tv)
                 else
                   (case related_tablet w2 of
                      None \<Rightarrow> close_finish e (w2, s2) tv
                    | Some rtab \<Rightarrow>
                        (case close_related e rtab OLAP_SUCCESS (w2, s2) of
                           (r3, w3, s3) \<Rightarrow>
                             if r3 \<noteq> Returned OLAP_SUCCESS then (r3, w3, s3, tv)
                             else close_finish e (w3, s3) tv)))) = init_runs s"
  (is "init_runs (world_after ?X) = _")
  and close_after_guard_is_init:
  "is_init w \<Longrightarrow> is_init (writer_after (case close_cur e (w, s) of
               (r, w2, s2) \<Rightarrow>
                 if r \<noteq> Returned OLAP_SUCCESS then (r, w2, s2, tv)
                 else
                   (case related_tablet w2 of
                      None \<Rightarrow> close_finish e (w2, s2) tv
                    | Some rtab \<Rightarrow>
                        (case close_related e rtab OLAP_SUCCESS (w2, s2) of
                           (r3, w3, s3) \<Rightarrow>
                             if r3 \<noteq> Returned OLAP_SUCCESS then (r3, w3, s3, tv)
                             else close_finish e (w3, s3) tv))))"
proof -
  obtain r w2 s2 where c: "close_cur e (w, s) = (r, w2, s2)" by (metis prod_cases3)
  have r2: "init_runs s2 = init_runs s" using close_cur_runs [of e w s] c by simp
  have i2: "is_init w \<Longrightarrow> is_init w2" using close_cur_is_init [of w e s] c by simp
  show "init_runs (world_after ?X) = init_runs s"
  proof (cases "related_tablet w2")
    case None
    then show ?thesis using c r2 close_finish_runs [of e w2 s2 tv]
      by (simp add: world_after_def)
  next
    case (Some rtab)
    obtain r3 w3 s3 where cr: "close_related e rtab OLAP_SUCCESS (w2, s2) = (r3, w3, s3)"
      by (metis prod_cases3)
    have "init_runs s3 = init_runs s2" using close_related_runs [of e rtab OLAP_SUCCESS w2 s2] cr by simp
    then show ?thesis using Some c cr r2 close_finish_runs [of e w3 s3 tv]
      by (simp add: world_after_def)
  qed
  show "is_init w \<Longrightarrow> is_init (writer_after ?X)"
  proof (cases "related_tablet w2")
    case None
    assume "is_init w"
    then show ?thesis using None c i2 close_finish_runs [of e w2 s2 tv]
      by (simp add: writer_after_def)
  next
    case (Some rtab)
    assume iw: "is_init w"
    obtain r3 w3 s3 where cr: "close_related e rtab OLAP_SUCCESS (w2, s2) = (r3, w3, s3)"
      by (metis prod_cases3)
    have "is_init w3 = is_init w2" using close_related_is_init [of e rtab OLAP_SUCCESS w2 s2] cr by simp
    then show ?thesis using Some c cr i2 iw close_finish_runs [of e w3 s3 tv]
      by (simp add: writer_after_def)
  qed
qed

lemma close_initialized:
  "is_init w \<Longrightarrow> is_init (writer_after (close e (w, s) tv)) \<and>
     init_runs (world_after (close e (w, s) tv)) = init_runs s"
  using close_after_guard [where e=e and w=w and s=s and tv=tv]
    close_after_guard_is_init [where w=w and e=e and s=s and tv=tv]
  by (simp add: close_def ensure_init_def)

lemma run_initialized:
  "is_init w \<Longrightarrow> init_runs (world_after (run e ops (w, s, tv))) = init_runs s"
proof (induction ops arbitrary: w s tv)
  case Nil
  then show ?case by (simp add: world_after_def)
next
  case (Cons x ops)
  show ?case
  proof (cases x)
    case (Write t)
    obtain r w1 s1 where wt: "write_tuple e t (w, s) = (r, w1, s1)" by (metis prod_cases3)
    with write_tuple_initialized [OF Cons.prems, of e t s]
    have i1: "is_init w1" and r1: "init_runs s1 = init_runs s" by simp_all
    obtain rs st where rr: "run e ops (w1, s1, tv) = (rs, st)" by (metis prod.exhaust)
    from Cons.IH [OF i1, of s1 tv] rr r1 have "init_runs (fst (snd st)) = init_runs s"
      by (simp add: world_after_def)
    then show ?thesis using Write wt rr r1 by (simp add: world_after_def)
  next
    case Close
    obtain r w1 s1 tv1 where cl: "close e (w, s) tv = (r, w1, s1, tv1)" by (metis prod_cases4)
    with close_initialized [OF Cons.prems, of e s tv]
    have i1: "is_init w1" and r1: "init_runs s1 = init_runs s"
      by (simp_all add: world_after_def writer_after_def)
    obtain rs st where rr: "run e ops (w1, s1, tv1) = (rs, st)" by (metis prod.exhaust)
    from Cons.IH [OF i1, of s1 tv1] rr r1 have "init_runs (fst (snd st)) = init_runs s"
      by (simp add: world_after_def)
    then show ?thesis using Close cl rr r1 by (simp add: world_after_def)
  qed
qed

lemma write_tuple_uninit:
  assumes "\<not> is_init w"
  shows "init_runs (snd (snd (write_tuple e t (w, s)))) = Suc (init_runs s) \<and>
         (fst (init e (w, s)) = OLAP_SUCCESS \<longrightarrow> is_init (fst (snd (write_tuple e t (w, s)))))"
proof -
  obtain st w1 s1 where i: "init e (w, s) = (st, w1, s1)" by (metis prod_cases3)
  have r1: "init_runs s1 = Suc (init_runs s)" using init_runs_init [of e w s] i by simp
  show ?thesis
  proof (cases "st = OLAP_SUCCESS")
    case True
    then have "is_init w1" using init_success_is_init [of e w s] i by simp
    then show ?thesis
      using assms i True r1 write_row_runs [of e t w1 s1] write_row_is_init [of w1 e t s1]
      by (simp add: write_tuple_def ensure_init_def)
  next
    case False
    then show ?thesis using assms i r1 by (simp add: write_tuple_def ensure_init_def)
  qed
qed

lemma close_uninit:
  assumes "\<not> is_init w"
  shows "init_runs (world_after (close e (w, s) tv)) = Suc (init_runs s) \<and>
         (fst (init e (w, s)) = OLAP_SUCCESS \<longrightarrow> is_init (writer_after (close e (w, s) tv)))"
proof -
  obtain st w1 s1 where i: "init e (w, s) = (st, w1, s1)" by (metis prod_cases3)
  have r1: "init_runs s1 = Suc (init_runs s)" using init_runs_init [of e w s] i by simp
  show ?thesis
  proof (cases "st = OLAP_SUCCESS")
    case True
    then have "is_init w1" using init_success_is_init [of e w s] i by simp
    then show ?thesis
      using assms i True r1 close_after_guard [where e=e and w=w1 and s=s1 and tv=tv]
        close_after_guard_is_init [where e=e and w=w1 and s=s1 and tv=tv]
      by (simp add: close_def ensure_init_def)
  next
    case False
    then show ?thesis using assms i r1 by (simp add: close_def ensure_init_def world_after_def)
  qed
qed

lemma run_first_init:
  assumes "\<not> is_init w" and "fst (init e (w, s)) = OLAP_SUCCESS" and "ops \<noteq> []"
  shows "init_runs (world_after (run e ops (w, s, tv))) = Suc (init_runs s)"
proof (cases ops)
  case Nil
  with assms(3) show ?thesis by simp
next
  case (Cons x ops')
  show ?thesis
  proof (cases x)
    case (Write t)
    obtain r w1 s1 where wt: "write_tuple e t (w, s) = (r, w1, s1)" by (metis prod_cases3)
    with write_tuple_uninit [OF assms(1), of e t s] assms(2)
    have i1: "is_init w1" and r1: "init_runs s1 = Suc (init_runs s)" by simp_all
    obtain rs st where rr: "run e ops' (w1, s1, tv) = (rs, st)" by (metis prod.exhaust)
    from run_initialized [OF i1, of e ops' s1 tv] rr r1 have "init_runs (fst (snd st)) = Suc (init_runs s)"
      by (simp add: world_after_def)
    then show ?thesis using Cons Write wt rr r1 by (simp add: world_after_def)
  next
    case Close
    obtain r w1 s1 tv1 where cl: "close e (w, s) tv = (r, w1, s1, tv1)" by (metis prod_cases4)
    with close_uninit [OF assms(1), of e s tv] assms(2)
    have i1: "is_init w1" and r1: "init_runs s1 = Suc (init_runs s)"
      by (simp_all add: world_after_def writer_after_def)
    obtain rs st where rr: "run e ops' (w1, s1, tv1) = (rs, st)" by (metis prod.exhaust)
    from run_initialized [OF i1, of e ops' s1 tv1] rr r1 have "init_runs (fst (snd st)) = Suc (init_runs s)"
      by (simp add: world_after_def)
    then show ?thesis using Cons Close cl rr r1 by (simp add: world_after_def)
  qed
qed

text \<open>\<open>_is_init\<close> is set by an \<open>init\<close> that returns success and by nothing else: an
  \<open>init\<close> that fails, the body of \<open>write\<close> and the body of \<open>close\<close> leave it as it
  was.\<close>

lemma init_writer_flag:
  "is_init (fst (snd (init_writer e tab (w, s)))) =
     (is_init w \<or> fst (init_writer e tab (w, s)) = OLAP_SUCCESS)"
  by (auto simp: init_writer_def get_next_id_def Let_def split: prod.splits)

lemma init_flag:
  "is_init (fst (snd (init e (w, s)))) = (is_init w \<or> fst (init e (w, s)) = OLAP_SUCCESS)"
proof (cases "get_tablet e (req_tablet_id (req w)) (req_schema_hash (req w))")
  case None
  then show ?thesis by (simp add: init_def Let_def)
next
  case (Some tab)
  let ?s1 = "emit (GetTablet (req_tablet_id (req w)) (req_schema_hash (req w))) (emit Init s)"
  obtain st w2 s2 where it: "init_txn e tab (w\<lparr>tablet := Some tab\<rparr>, ?s1) = (st, w2, s2)"
    by (metis prod_cases3)
  from init_txn_keeps [OF it] have k: "is_init w2 = is_init w" by simp
  show ?thesis
  proof (cases "st = OLAP_SUCCESS")
    case True
    then show ?thesis
      using Some it k init_writer_flag [of e tab w2 s2] by (simp add: init_def Let_def)
  next
    case False
    then show ?thesis using Some it k by (simp add: init_def Let_def)
  qed
qed

lemma write_row_flag:
  "is_init (fst (snd (write_row e t (w, s)))) = is_init w"
  by (auto simp: write_row_def mem_flush_def Let_def split: prod.splits option.splits)

lemma close_cur_flag:
  "is_init (fst (snd (close_cur e (w, s)))) = is_init w"
  by (auto simp: close_cur_def mem_close_def save_def Let_def split: prod.splits option.splits)

lemma write_tuple_flag:
  "is_init (fst (snd (write_tuple e t (w, s)))) = (is_init w \<or> fst (init e (w, s)) = OLAP_SUCCESS)"
proof (cases "is_init w")
  case True
  then show ?thesis by (simp add: write_tuple_def ensure_init_def write_row_flag)
next
  case False
  obtain st w1 s1 where i: "init e (w, s) = (st, w1, s1)" by (metis prod_cases3)
  with init_flag [of e w s] False have f: "is_init w1 = (st = OLAP_SUCCESS)" by simp
  show ?thesis using False i f by (simp add: write_tuple_def ensure_init_def write_row_flag)
qed

lemma close_body_flag:
  "is_init (writer_after (case close_cur e (w, s) of
               (r, w2, s2) \<Rightarrow>
                 if r \<noteq> Returned OLAP_SUCCESS then (r, w2, s2, tv)
                 else
                   (case related_tablet w2 of
                      None \<Rightarrow> close_finish e (w2, s2) tv
                    | Some rtab \<Rightarrow>
                        (case close_related e rtab OLAP_SUCCESS (w2, s2) of
                           (r3, w3, s3) \<Rightarrow>
                             if r3 \<noteq> Returned OLAP_SUCCESS then (r3, w3, s3, tv)
                             else close_finish e (w3, s3) tv)))) = is_init w"
proof -
  obtain r w2 s2 where c: "close_cur e (w, s) = (r, w2, s2)" by (metis prod_cases3)
  have i2: "is_init w2 = is_init w" using close_cur_flag [of e w s] c by simp
  show ?thesis
  proof (cases "related_tablet w2")
    case None
    then show ?thesis using c i2 close_finish_runs [of e w2 s2 tv]
      by (simp add: writer_after_def)
  next
    case (Some rtab)
    obtain r3 w3 s3 where cr: "close_related e rtab OLAP_SUCCESS (w2, s2) = (r3, w3, s3)"
      by (metis prod_cases3)
    have "is_init w3 = is_init w2" using close_related_is_init [of e rtab OLAP_SUCCESS w2 s2] cr by simp
    then show ?thesis using Some c cr i2 close_finish_runs [of e w3 s3 tv]
      by (simp add: writer_after_def)
  qed
qed

lemma close_flag:
  "is_init (writer_after (close e (w, s) tv)) = (is_init w \<or> fst (init e (w, s)) = OLAP_SUCCESS)"
proof (cases "is_init w")
  case True
  then show ?thesis using close_body_flag [where e=e and w=w and s=s and tv=tv] by (simp add: close_def ensure_init_def)
next
  case False
  obtain st w1 s1 where i: "init e (w, s) = (st, w1, s1)" by (metis prod_cases3)
  with init_flag [of e w s] False have f: "is_init w1 = (st = OLAP_SUCCESS)" by simp
  show ?thesis using False i f close_body_flag [where e=e and w=w1 and s=s1 and tv=tv]
    by (simp add: close_def ensure_init_def writer_after_def)
qed

lemma failed_init_returned:
  assumes "\<not> is_init w" and "fst (init e (w, s)) \<noteq> OLAP_SUCCESS"
  shows "fst (write_tuple e t (w, s)) = Returned (fst (init e (w, s))) \<and>
         fst (close e (w, s) tv) = Returned (fst (init e (w, s)))"
proof -
  obtain st w1 s1 where i: "init e (w, s) = (st, w1, s1)" by (metis prod_cases3)
  with assms(2) have "st \<noteq> OLAP_SUCCESS" by simp
  with assms(1) i show ?thesis by (simp add: write_tuple_def close_def ensure_init_def)
qed

lemma step_uninit:
  assumes "\<not> is_init w" and "fst (init e (w, s)) \<noteq> OLAP_SUCCESS"
  shows "\<exists>r w1 s1 tv1. run e [x] (w, s, tv) = ([Returned r], w1, s1, tv1) \<and> \<not> is_init w1 \<and>
           init_runs s1 = Suc (init_runs s)"
proof (cases x)
  case (Write t)
  obtain r w1 s1 where wt: "write_tuple e t (w, s) = (r, w1, s1)" by (metis prod_cases3)
  from failed_init_returned [OF assms, of t tv] wt have r: "r = Returned (fst (init e (w, s)))" by simp
  from write_tuple_flag [of e t w s] wt assms have f: "\<not> is_init w1" by simp
  from write_tuple_uninit [OF assms(1), of e t s] wt have c: "init_runs s1 = Suc (init_runs s)" by simp
  show ?thesis using Write wt r f c by simp
next
  case Close
  obtain r w1 s1 tv1 where cl: "close e (w, s) tv = (r, w1, s1, tv1)" by (metis prod_cases4)
  from failed_init_returned [OF assms, of "[]" tv] cl have r: "r = Returned (fst (init e (w, s)))" by simp
  from close_flag [of e w s tv] cl assms have f: "\<not> is_init w1" by (simp add: writer_after_def)
  from close_uninit [OF assms(1), of e s tv] cl have c: "init_runs s1 = Suc (init_runs s)"
    by (simp add: world_after_def)
  show ?thesis using Close cl r f c by simp
qed

lemma run_append_step:
  "run e (x # ops) (w, s, tv) =
     (case run e [x] (w, s, tv) of
        (rs, w1, s1, tv1) \<Rightarrow>
          if rs = [NullDeref] then (rs, w1, s1, tv1)
          else (case run e ops (w1, s1, tv1) of (rs2, st) \<Rightarrow> (rs @ rs2, st)))"
  by (cases x) (auto split: prod.splits)

lemma failed_init_rerun:
  assumes "\<not> is_init w" and "fst (init e (w, s)) \<noteq> OLAP_SUCCESS"
  shows "init_runs (world_after (run e [x, y] (w, s, tv))) = Suc (Suc (init_runs s))"
proof -
  from step_uninit [OF assms, of x tv] obtain r w1 s1 tv1 where
    a: "run e [x] (w, s, tv) = ([Returned r], w1, s1, tv1)" and f: "\<not> is_init w1"
    and c: "init_runs s1 = Suc (init_runs s)" by blast
  have "init_runs (world_after (run e [y] (w1, s1, tv1))) = Suc (init_runs s1)"
  proof (cases y)
    case (Write t)
    obtain r2 w2 s2 where wt: "write_tuple e t (w1, s1) = (r2, w2, s2)" by (metis prod_cases3)
    from write_tuple_uninit [OF f, of e t s1] wt have "init_runs s2 = Suc (init_runs s1)" by simp
    then show ?thesis using Write wt by (simp add: world_after_def)
  next
    case Close
    obtain r2 w2 s2 tv2 where cl: "close e (w1, s1) tv1 = (r2, w2, s2, tv2)" by (metis prod_cases4)
    from close_uninit [OF f, of e s1 tv1] cl have "init_runs s2 = Suc (init_runs s1)"
      by (simp add: world_after_def)
    then show ?thesis using Close cl by (simp add: world_after_def)
  qed
  then show ?thesis
    using a c by (auto simp: run_append_step [of e x "[y]"] world_after_def split: prod.splits)
qed

text \<open>C3, as the claim states it, fails: it promises one run of the initialization routine
  for every sequence of writes followed by close. Where the tablet manager does not know
  the tablet, \<open>init\<close> returns before \<open>_is_init\<close> is set, so a write followed by a close
  on a writer just opened enters \<open>init\<close> twice, and each call returns the not-found
  status.\<close>

theorem C3_init_runs_twice_counterexample:
  "init_runs world0 = 0 \<and>
   fst (run env_missing [Write [30, 10, 20], Close] (open_writer req_T, world0, [])) =
     [Returned OLAP_ERR_TABLE_NOT_FOUND, Returned OLAP_ERR_TABLE_NOT_FOUND] \<and>
   init_runs (world_after (run env_missing [Write [30, 10, 20], Close] (open_writer req_T, world0, []))) = 2"
  by (simp add: op_defs init_defs sample_defs variant_defs)

text \<open>C3, amended. A write or a close on a writer whose \<open>_is_init\<close> is unset runs
  \<open>init\<close> once, and no sequence of writes and closes on a writer whose \<open>_is_init\<close> is
  set runs it. After \<open>init\<close>, after a write and after a close, \<open>_is_init\<close> is set exactly
  if it was set before or the \<open>init\<close> that was run returned success. So where the
  \<open>init\<close> of a writer with \<open>_is_init\<close> unset fails, the write or close returns the
  status of that \<open>init\<close>, and any two operations in a row run \<open>init\<close> twice: the
  failed initialization is run again by the next write or close. And for a writer just
  opened whose first \<open>init\<close> succeeds, \<open>init\<close> is run exactly once over any non-empty
  sequence of writes and closes.\<close>

theorem C3_init_until_success:
  "(\<not> is_init w \<longrightarrow>
      init_runs (snd (snd (write_tuple e t (w, s)))) = Suc (init_runs s) \<and>
      init_runs (world_after (close e (w, s) tv)) = Suc (init_runs s)) \<and>
   (is_init w \<longrightarrow> init_runs (world_after (run e ops (w, s, tv))) = init_runs s) \<and>
   is_init (fst (snd (init e (w, s)))) = (is_init w \<or> fst (init e (w, s)) = OLAP_SUCCESS) \<and>
   is_init (fst (snd (write_tuple e t (w, s)))) = (is_init w \<or> fst (init e (w, s)) = OLAP_SUCCESS) \<and>
   is_init (writer_after (close e (w, s) tv)) = (is_init w \<or> fst (init e (w, s)) = OLAP_SUCCESS) \<and>
   (\<not> is_init w \<and> fst (init e (w, s)) \<noteq> OLAP_SUCCESS \<longrightarrow>
      fst (write_tuple e t (w, s)) = Returned (fst (init e (w, s))) \<and>
      fst (close e (w, s) tv) = Returned (fst (init e (w, s))) \<and>
      init_runs (world_after (run e [x, y] (w, s, tv))) = Suc (Suc (init_runs s))) \<and>
   (fst (init e (open_writer rq, s)) = OLAP_SUCCESS \<and> ops \<noteq> [] \<longrightarrow>
      init_runs (world_after (run e ops (open_writer rq, s, tv))) = Suc (init_runs s))"
proof -
  have "\<not> is_init (open_writer rq)" by (simp add: open_writer_def)
  then show ?thesis
    using write_tuple_uninit [of w e t s] close_uninit [of w e s tv] run_initialized [of w e ops s tv]
      run_first_init [of "open_writer rq" e s ops tv] init_flag [of e w s]
      write_tuple_flag [of e t w s] close_flag [of e w s tv]
      failed_init_returned [of w e s t tv] failed_init_rerun [of w e s x y tv]
    by blast
qed

text \<open>C3, a witness: where the tablet is missing, a first write and a first close return
  the not-found status and leave \<open>_is_init\<close> unset, the write runs \<open>init\<close> once and a
  write followed by a close run it twice; with collaborators that succeed, the first write
  sets \<open>_is_init\<close>, two writes and a close on a writer just opened run \<open>init\<close> once, and a
  write and a close on the initialized writer do not run it.\<close>

theorem C3_init_until_success_witness:
  "\<not> is_init (open_writer req_T) \<and>
   fst (init env_missing (open_writer req_T, world0)) \<noteq> OLAP_SUCCESS \<and>
   fst (write_tuple env_missing [30, 10, 20] (open_writer req_T, world0)) = Returned OLAP_ERR_TABLE_NOT_FOUND \<and>
   fst (close env_missing (open_writer req_T, world0) []) = Returned OLAP_ERR_TABLE_NOT_FOUND \<and>
   \<not> is_init (fst (snd (write_tuple env_missing [30, 10, 20] (open_writer req_T, world0)))) \<and>
   \<not> is_init (writer_after (close env_missing (open_writer req_T, world0) [])) \<and>
   init_runs (snd (snd (write_tuple env_missing [30, 10, 20] (open_writer req_T, world0)))) = Suc (init_runs world0) \<and>
   init_runs (world_after (run env_missing [Write [30, 10, 20], Close] (open_writer req_T, world0, []))) =
     Suc (Suc (init_runs world0)) \<and>
   fst (init env_ok (open_writer req_T, world0)) = OLAP_SUCCESS \<and>
   is_init (fst (snd (write_tuple env_ok [30, 10, 20] (open_writer req_T, world0)))) \<and>
   [Write [30, 10, 20], Write [31, 11, 21], Close] \<noteq> [] \<and>
   init_runs (world_after (run env_ok [Write [30, 10, 20], Write [31, 11, 21], Close]
                             (open_writer req_T, world0, []))) = Suc (init_runs world0) \<and>
   is_init writer_ready \<and>
   init_runs (world_after (run env_ok [Write [30, 10, 20], Close] (writer_ready, world_ready, []))) =
     init_runs world_ready"
proof -
  have n: "\<not> is_init (open_writer req_T)" by (simp add: open_writer_def)
  have nf: "fst (init env_missing (open_writer req_T, world0)) = OLAP_ERR_TABLE_NOT_FOUND"
    by (simp add: init_def open_writer_def env_missing_def env_ok_def req_T_def Let_def)
  have i: "is_init writer_ready"
    unfolding writer_ready_def by (rule init_success_is_init [OF init_ok_sample])
  have ne: "[Write [30, 10, 20], Write [31, 11, 21], Close] \<noteq> []" by simp
  from C3_init_until_success [of "open_writer req_T" env_missing "[30, 10, 20]" world0 "[]" "[]"
       "Write [30, 10, 20]" Close req_T]
    C3_init_until_success [of writer_ready env_ok "[]" world_ready "[]" "[Write [30, 10, 20], Close]"
       Close Close req_T]
    C3_init_until_success [of "open_writer req_T" env_ok "[30, 10, 20]" world0 "[]"
       "[Write [30, 10, 20], Write [31, 11, 21], Close]" Close Close req_T]
    n nf i ne init_ok_sample
  show ?thesis by simp
qed

subsection \<open>A request for a tablet that the tablet manager does not know\<close>

lemma init_not_found:
  assumes "get_tablet e (req_tablet_id rq) (req_schema_hash rq) = None"
  shows "init e (open_writer rq, s) =
     (OLAP_ERR_TABLE_NOT_FOUND, open_writer rq,
      s\<lparr>calls := calls s @ [Init, GetTablet (req_tablet_id rq) (req_schema_hash rq)]\<rparr>)"
  using assms by (simp add: init_def open_writer_def emit_def Let_def)

lemma run_not_found:
  assumes "get_tablet e (req_tablet_id rq) (req_schema_hash rq) = None"
  shows "run e ops (open_writer rq, s, tv) =
     (map (\<lambda>x. Returned OLAP_ERR_TABLE_NOT_FOUND) ops, open_writer rq,
      s\<lparr>calls := calls s @ concat (map (\<lambda>x. [Init, GetTablet (req_tablet_id rq) (req_schema_hash rq)]) ops)\<rparr>,
      tv)"
proof (induction ops arbitrary: s)
  case Nil
  then show ?case by simp
next
  case (Cons x ops)
  have ni: "\<not> is_init (open_writer rq)" by (simp add: open_writer_def)
  show ?case
  proof (cases x)
    case (Write t)
    then show ?thesis
      using Cons.IH ni by (simp add: write_tuple_def ensure_init_def init_not_found [OF assms])
  next
    case Close
    then show ?thesis
      using Cons.IH ni by (simp add: close_def ensure_init_def init_not_found [OF assms])
  qed
qed

lemma teardown_unopened:
  "teardown (open_writer rq, s) =
     s\<lparr>txns := txns s - {(partition_id rq, txn_id rq, req_tablet_id rq, req_schema_hash rq)},
       unused_rowsets := unused_rowsets s @ [None],
       calls := calls s @ [DeleteTxn (partition_id rq, txn_id rq, req_tablet_id rq, req_schema_hash rq),
                           AddUnusedRowset None]\<rparr>"
  by (simp add: teardown_def garbage_collection_def delete_txn_def add_unused_rowset_def emit_def
      open_writer_def Let_def)

text \<open>C2, as the claim states it, fails in its last part: the teardown of a writer whose
  tablet was not found is not a no-op. The destructor tests the success flag alone, so after
  a write that failed with the not-found status it calls \<open>delete_txn\<close> for the request's
  key and hands a null rowset to the storage engine.\<close>

theorem C2_teardown_deletes_counterexample:
  "get_tablet env_missing (req_tablet_id req_T) (req_schema_hash req_T) = None \<and>
   fst (write_tuple env_missing [30, 10, 20] (open_writer req_T, world0)) = Returned OLAP_ERR_TABLE_NOT_FOUND \<and>
   calls (snd (snd (write_tuple env_missing [30, 10, 20] (open_writer req_T, world0)))) = [Init, GetTablet 1 10] \<and>
   calls (teardown (snd (write_tuple env_missing [30, 10, 20] (open_writer req_T, world0)))) =
     [Init, GetTablet 1 10, DeleteTxn (7, 42, 1, 10), AddUnusedRowset None]"
  by (simp add: op_defs init_defs sample_defs variant_defs)

text \<open>C2, amended. If the tablet manager does not know the tablet of the request, then
  every write and every close on the writer returns the not-found status, leaves the writer
  as it was opened and the tablet infos as they were, and calls nothing but the lookup, so
  no transaction is prepared; and the teardown of that writer runs the unwind: one
  \<open>delete_txn\<close> for the request's own key, which removes that key from the transaction
  manager if some other party registered it, and one null rowset handed to the storage
  engine, with no \<open>delete_txn\<close> for a related tablet.\<close>

theorem C2_tablet_not_found:
  assumes "get_tablet e (req_tablet_id rq) (req_schema_hash rq) = None"
  shows "run e ops (open_writer rq, s, tv) =
           (map (\<lambda>x. Returned OLAP_ERR_TABLE_NOT_FOUND) ops, open_writer rq,
            s\<lparr>calls := calls s @ concat (map (\<lambda>x. [Init, GetTablet (req_tablet_id rq) (req_schema_hash rq)]) ops)\<rparr>,
            tv) \<and>
         teardown (open_writer rq, s') =
           s'\<lparr>txns := txns s' - {(partition_id rq, txn_id rq, req_tablet_id rq, req_schema_hash rq)},
              unused_rowsets := unused_rowsets s' @ [None],
              calls := calls s' @ [DeleteTxn (partition_id rq, txn_id rq, req_tablet_id rq, req_schema_hash rq),
                                   AddUnusedRowset None]\<rparr>"
  using run_not_found [OF assms] teardown_unopened by blast

text \<open>C2, a witness: with no tablet known, a write and a close both return the not-found
  status, and the teardown that follows makes its two calls.\<close>

theorem C2_tablet_not_found_witness:
  "get_tablet env_missing (req_tablet_id req_T) (req_schema_hash req_T) = None \<and>
   run env_missing [Write [30, 10, 20], Close] (open_writer req_T, world0, []) =
     ([Returned OLAP_ERR_TABLE_NOT_FOUND, Returned OLAP_ERR_TABLE_NOT_FOUND], open_writer req_T,
      world0\<lparr>calls := [Init, GetTablet 1 10, Init, GetTablet 1 10]\<rparr>, []) \<and>
   teardown (open_writer req_T, world0\<lparr>calls := [Init, GetTablet 1 10, Init, GetTablet 1 10]\<rparr>) =
     world0\<lparr>unused_rowsets := [None],
            calls := [Init, GetTablet 1 10, Init, GetTablet 1 10, DeleteTxn (7, 42, 1, 10),
                      AddUnusedRowset None]\<rparr>"
proof -
  have g: "get_tablet env_missing (req_tablet_id req_T) (req_schema_hash req_T) = None"
    by (simp add: env_missing_def env_ok_def)
  from C2_tablet_not_found [OF g, of "[Write [30, 10, 20], Close]" world0 "[]"
      "world0\<lparr>calls := [Init, GetTablet 1 10, Init, GetTablet 1 10]\<rparr>"] g
  show ?thesis by (simp add: req_T_def world0_def)
qed

subsection \<open>Buffer rotation in \<open>write\<close>\<close>

lemma writer_ready_facts:
  "is_init writer_ready" "mem_table writer_ready = Some memtable_T"
  "rowset_writer writer_ready = Some rowset_writer_T" "tablet writer_ready = Some tablet_T"
  "related_tablet writer_ready = None" "calls world_ready =
     [Init, GetTablet 1 10, PrepareTxn (7, 42, 1, 10) (0, 1), CreateDirs ''/t1/pending'',
      GetNextId ''/d1'', WriterInit (writer_context req_T tablet_T 0)]"
  by (simp_all add: writer_ready_def world_ready_def memtable_T_def rowset_writer_T_def init_defs sample_defs)

text \<open>An initialized writer has a tablet, a memtable and a rowset writer, and a write that
  returns leaves it so; the null pointer branches of the body of \<open>write\<close> are not taken.\<close>

lemma write_row_ready:
  assumes "is_init w" and "mem_table w \<noteq> None" and "rowset_writer w \<noteq> None" and "tablet w \<noteq> None"
  shows "fst (write_row e t (w, s)) \<noteq> NullDeref \<and>
         is_init (fst (snd (write_row e t (w, s)))) \<and>
         mem_table (fst (snd (write_row e t (w, s)))) \<noteq> None \<and>
         rowset_writer (fst (snd (write_row e t (w, s)))) \<noteq> None \<and>
         tablet (fst (snd (write_row e t (w, s)))) \<noteq> None"
  using assms by (auto simp: write_row_def mem_flush_def Let_def split: prod.splits option.splits)

text \<open>A writer just opened is \<open>wired\<close>, and writes and closes keep a writer so.\<close>

lemma wired_open: "wired (open_writer rq)"
  by (simp add: wired_def open_writer_def)

lemma init_wired:
  "wired (fst (snd (init e (w, s))))" if "\<not> is_init w"
proof (cases "fst (init e (w, s)) = OLAP_SUCCESS")
  case True
  then have "init e (w, s) = (OLAP_SUCCESS, fst (snd (init e (w, s))), snd (snd (init e (w, s))))"
    by (metis prod.collapse)
  from init_success [OF this] show ?thesis by (auto simp: wired_def)
next
  case False
  with init_flag [of e w s] that show ?thesis by (simp add: wired_def)
qed

lemma ensure_init_wired:
  "wired w \<Longrightarrow> wired (fst (snd (ensure_init e (w, s))))"
  using init_wired [of w e s] by (simp add: ensure_init_def)

lemma write_row_wired:
  "wired w \<Longrightarrow> wired (fst (snd (write_row e t (w, s))))"
  by (auto simp: wired_def write_row_def mem_flush_def Let_def split: prod.splits option.splits)

lemma write_tuple_wired:
  assumes "wired w"
  shows "wired (fst (snd (write_tuple e t (w, s))))"
proof -
  obtain st w1 s1 where g: "ensure_init e (w, s) = (st, w1, s1)" by (metis prod_cases3)
  with ensure_init_wired [OF assms, of e s] have "wired w1" by simp
  with g write_row_wired [of w1 e t s1] show ?thesis by (simp add: write_tuple_def)
qed

lemma close_cur_wired:
  "wired w \<Longrightarrow> wired (fst (snd (close_cur e (w, s))))"
  by (auto simp: wired_def close_cur_def mem_close_def save_def Let_def split: prod.splits option.splits)

lemma close_related_wired:
  "wired w \<Longrightarrow> wired (fst (snd (close_related e rtab res (w, s))))"
  by (auto simp: wired_def close_related_def create_dirs_def save_def Let_def
      split: prod.splits option.splits)

lemma close_finish_wired:
  "wired w \<Longrightarrow> wired (writer_after (close_finish e (w, s) tv))"
  by (auto simp: wired_def close_finish_def writer_after_def split: option.splits)

lemma close_wired:
  assumes "wired w"
  shows "wired (writer_after (close e (w, s) tv))"
proof -
  obtain st w1 s1 where g: "ensure_init e (w, s) = (st, w1, s1)" by (metis prod_cases3)
  with ensure_init_wired [OF assms, of e s] have w1: "wired w1" by simp
  obtain r w2 s2 where c: "close_cur e (w1, s1) = (r, w2, s2)" by (metis prod_cases3)
  with close_cur_wired [OF w1, of e s1] have w2: "wired w2" by simp
  show ?thesis
  proof (cases "related_tablet w2")
    case None
    then show ?thesis using g c w1 w2 close_finish_wired [OF w2, of e s2 tv]
      by (simp add: close_def writer_after_def)
  next
    case (Some rtab)
    obtain r3 w3 s3 where cr: "close_related e rtab OLAP_SUCCESS (w2, s2) = (r3, w3, s3)"
      by (metis prod_cases3)
    with close_related_wired [OF w2, of e rtab OLAP_SUCCESS s2] have w3: "wired w3" by simp
    then show ?thesis using Some g c cr w1 w2 close_finish_wired [OF w3, of e s3 tv]
      by (simp add: close_def writer_after_def)
  qed
qed

lemma run_wired:
  "wired w \<Longrightarrow> wired (writer_after (run e ops (w, s, tv)))"
proof (induction ops arbitrary: w s tv)
  case Nil
  then show ?case by (simp add: writer_after_def)
next
  case (Cons x ops)
  show ?case
  proof (cases x)
    case (Write t)
    obtain r w1 s1 where wt: "write_tuple e t (w, s) = (r, w1, s1)" by (metis prod_cases3)
    with write_tuple_wired [OF Cons.prems, of e t s] have w1: "wired w1" by simp
    from Cons.IH [OF w1, of s1 tv] show ?thesis using Write wt w1
      by (auto simp: writer_after_def split: prod.splits)
  next
    case Close
    obtain r w1 s1 tv1 where cl: "close e (w, s) tv = (r, w1, s1, tv1)" by (metis prod_cases4)
    with close_wired [OF Cons.prems, of e s tv] have w1: "wired w1" by (simp add: writer_after_def)
    from Cons.IH [OF w1, of s1 tv1] show ?thesis using Close cl w1
      by (auto simp: writer_after_def split: prod.splits)
  qed
qed

text \<open>C4. The memory usage and \<open>write_buffer_size\<close> are compared as natural numbers. Take
  any write on a writer that operations on a writer just opened can lead to, the write that
  initializes the writer included, and let the guard of the write succeed, leaving the
  writer w1. Then w1 has a memtable, and the write inserts the tuple and flushes the
  memtable exactly when its memory usage after the insert is at least the threshold: the
  calls of the write after the guard are the insert, followed by the flush if and only if
  the threshold is reached. Below the threshold the write succeeds and the memtable that
  received the tuple stays current. At or above it, once the flush has succeeded, the
  write succeeds, the rowset writer has the flushed rows as a new batch, and the current
  memtable is a newly constructed one, which holds no row, so the next reading of the
  memory usage is that of the new memtable alone.\<close>

theorem C4_rotation_at_threshold:
  assumes "wired w" and "ensure_init e (w, s) = (OLAP_SUCCESS, w1, s1)"
  shows "\<exists>m rw tab. mem_table w1 = Some m \<and> rowset_writer w1 = Some rw \<and> tablet w1 = Some tab \<and>
         calls (snd (snd (write_tuple e t (w, s)))) =
           calls s1 @ [MemInsert t] @
           (if write_buffer_size e \<le> memory_usage e (mem_insert e m t)
            then [MemFlush (mt_rows (mem_insert e m t))] else []) \<and>
         (memory_usage e (mem_insert e m t) < write_buffer_size e \<longrightarrow>
            fst (write_tuple e t (w, s)) = Returned OLAP_SUCCESS \<and>
            fst (snd (write_tuple e t (w, s))) = w1\<lparr>mem_table := Some (mem_insert e m t)\<rparr>) \<and>
         (write_buffer_size e \<le> memory_usage e (mem_insert e m t) \<and>
          flush_status e (mt_rows (mem_insert e m t)) = OLAP_SUCCESS \<longrightarrow>
            fst (write_tuple e t (w, s)) = Returned OLAP_SUCCESS \<and>
            fst (snd (write_tuple e t (w, s))) =
              w1\<lparr>mem_table := Some (new_MemTable (schema w1) (col_ids w1) (tuple_desc (req w1)) (keys_type tab)),
                 rowset_writer := Some (rw\<lparr>rw_batches := rw_batches rw @ [mt_rows (mem_insert e m t)]\<rparr>)\<rparr> \<and>
            mt_rows (new_MemTable (schema w1) (col_ids w1) (tuple_desc (req w1)) (keys_type tab)) = [])"
proof -
  have i1: "is_init w1"
  proof (cases "is_init w")
    case True
    with assms(2) show ?thesis by (simp add: ensure_init_def)
  next
    case False
    with assms(2) have "fst (init e (w, s)) = OLAP_SUCCESS" "w1 = fst (snd (init e (w, s)))"
      by (auto simp: ensure_init_def)
    with init_flag [of e w s] show ?thesis by simp
  qed
  from ensure_init_wired [OF assms(1), of e s] assms(2) have "wired w1" by simp
  with i1 obtain m rw tab where
    s: "mem_table w1 = Some m" "rowset_writer w1 = Some rw" "tablet w1 = Some tab"
    by (auto simp: wired_def)
  have "calls (snd (snd (write_tuple e t (w, s)))) =
           calls s1 @ [MemInsert t] @
           (if write_buffer_size e \<le> memory_usage e (mem_insert e m t)
            then [MemFlush (mt_rows (mem_insert e m t))] else []) \<and>
         (memory_usage e (mem_insert e m t) < write_buffer_size e \<longrightarrow>
            fst (write_tuple e t (w, s)) = Returned OLAP_SUCCESS \<and>
            fst (snd (write_tuple e t (w, s))) = w1\<lparr>mem_table := Some (mem_insert e m t)\<rparr>) \<and>
         (write_buffer_size e \<le> memory_usage e (mem_insert e m t) \<and>
          flush_status e (mt_rows (mem_insert e m t)) = OLAP_SUCCESS \<longrightarrow>
            fst (write_tuple e t (w, s)) = Returned OLAP_SUCCESS \<and>
            fst (snd (write_tuple e t (w, s))) =
              w1\<lparr>mem_table := Some (new_MemTable (schema w1) (col_ids w1) (tuple_desc (req w1)) (keys_type tab)),
                 rowset_writer := Some (rw\<lparr>rw_batches := rw_batches rw @ [mt_rows (mem_insert e m t)]\<rparr>)\<rparr> \<and>
            mt_rows (new_MemTable (schema w1) (col_ids w1) (tuple_desc (req w1)) (keys_type tab)) = [])"
    using assms(2) s
    by (simp add: write_tuple_def write_row_def mem_flush_def emit_def Let_def new_MemTable_def)
  with s show ?thesis by blast
qed

lemma init_threshold_one:
  "init env_threshold_one (open_writer req_T, world0) = (OLAP_SUCCESS, writer_ready, world_ready)"
  by (simp add: writer_ready_def world_ready_def env_threshold_one_def init_defs sample_defs)

text \<open>C4, a witness: on the initialized sample writer, one row stays below a threshold of
  two rows and is not flushed; at a threshold of one row, the first write on a writer just
  opened initializes it, flushes the row into the rowset writer and leaves an empty
  memtable.\<close>

theorem C4_rotation_at_threshold_witness:
  "wired (open_writer req_T) \<and> wired writer_ready \<and>
   ensure_init env_threshold_one (open_writer req_T, world0) = (OLAP_SUCCESS, writer_ready, world_ready) \<and>
   ensure_init env_ok (writer_ready, world_ready) = (OLAP_SUCCESS, writer_ready, world_ready) \<and>
   mem_table writer_ready = Some memtable_T \<and>
   memory_usage env_ok (mem_insert env_ok memtable_T [30, 10, 20]) < write_buffer_size env_ok \<and>
   fst (write_tuple env_ok [30, 10, 20] (writer_ready, world_ready)) = Returned OLAP_SUCCESS \<and>
   calls (snd (snd (write_tuple env_ok [30, 10, 20] (writer_ready, world_ready)))) =
     calls world_ready @ [MemInsert [30, 10, 20]] \<and>
   map_option mt_rows (mem_table (fst (snd (write_tuple env_ok [30, 10, 20] (writer_ready, world_ready))))) =
     Some [[Some 10, Some 20, Some 30]] \<and>
   write_buffer_size env_threshold_one
     \<le> memory_usage env_threshold_one (mem_insert env_threshold_one memtable_T [30, 10, 20]) \<and>
   flush_status env_threshold_one (mt_rows (mem_insert env_threshold_one memtable_T [30, 10, 20])) = OLAP_SUCCESS \<and>
   fst (write_tuple env_threshold_one [30, 10, 20] (open_writer req_T, world0)) = Returned OLAP_SUCCESS \<and>
   calls (snd (snd (write_tuple env_threshold_one [30, 10, 20] (open_writer req_T, world0)))) =
     calls world_ready @ [MemInsert [30, 10, 20], MemFlush [[Some 10, Some 20, Some 30]]] \<and>
   map_option mt_rows (mem_table (fst (snd (write_tuple env_threshold_one [30, 10, 20] (open_writer req_T, world0))))) =
     Some [] \<and>
   map_option rw_batches (rowset_writer (fst (snd (write_tuple env_threshold_one [30, 10, 20] (open_writer req_T, world0))))) =
     Some [[[Some 10, Some 20, Some 30]]]"
proof -
  have w0: "wired (open_writer req_T)" by (rule wired_open)
  have g1: "ensure_init env_threshold_one (open_writer req_T, world0) = (OLAP_SUCCESS, writer_ready, world_ready)"
  proof -
    have "\<not> is_init (open_writer req_T)" by (simp add: open_writer_def)
    then show ?thesis by (simp add: ensure_init_def init_threshold_one)
  qed
  have wr: "wired writer_ready"
    using ensure_init_wired [OF w0, of env_threshold_one world0] g1 by simp
  have g2: "ensure_init env_ok (writer_ready, world_ready) = (OLAP_SUCCESS, writer_ready, world_ready)"
    by (simp add: ensure_init_def writer_ready_facts(1))
  have u1: "memory_usage env_ok (mem_insert env_ok memtable_T [30, 10, 20]) < write_buffer_size env_ok"
    by (simp add: env_ok_def mem_insert_def memtable_T_def new_MemTable_def)
  have u2: "write_buffer_size env_threshold_one
     \<le> memory_usage env_threshold_one (mem_insert env_threshold_one memtable_T [30, 10, 20])"
    by (simp add: env_threshold_one_def env_ok_def mem_insert_def memtable_T_def new_MemTable_def)
  have f2: "flush_status env_threshold_one (mt_rows (mem_insert env_threshold_one memtable_T [30, 10, 20])) = OLAP_SUCCESS"
    by (simp add: env_threshold_one_def env_ok_def)
  have r1: "mt_rows (mem_insert env_ok memtable_T [30, 10, 20]) = [[Some 10, Some 20, Some 30]]"
    by (simp add: mem_insert_def memtable_T_def new_MemTable_def assemble_row_def get_slot_def)
  have r2: "mt_rows (mem_insert env_threshold_one memtable_T [30, 10, 20]) = [[Some 10, Some 20, Some 30]]"
    by (simp add: mem_insert_def memtable_T_def new_MemTable_def assemble_row_def get_slot_def)
  have b: "rw_batches rowset_writer_T = []" by (simp add: rowset_writer_T_def)
  from C4_rotation_at_threshold [OF wr g2, of "[30, 10, 20]"]
    C4_rotation_at_threshold [OF w0 g1, of "[30, 10, 20]"]
    w0 wr g1 g2 u1 u2 f2 r1 r2 b writer_ready_facts(2-4)
  show ?thesis by (simp add: new_MemTable_def)
qed




subsection \<open>A successful \<open>close\<close>\<close>

lemma close_finish_success:
  assumes "\<not> be_test e" and "close_finish e (w, s) tv = (Returned OLAP_SUCCESS, w', s', tv')"
  shows "\<exists>tab. tablet w' = Some tab \<and>
           tv' = tv @ [(tablet_id tab, schema_hash tab)] @
                 (case related_tablet w' of None \<Rightarrow> [] | Some rtab \<Rightarrow> [(tablet_id rtab, schema_hash rtab)]) \<and>
           delta_written_success w'"
  using assms by (auto simp: close_finish_def add_tablet_infos_def split: option.splits)

lemma close_ready_ok:
  "fst (close env_ok (writer_ready, world_ready) [(5, 50)]) = Returned OLAP_SUCCESS"
  "tablet (writer_after (close env_ok (writer_ready, world_ready) [(5, 50)])) = Some tablet_T"
  "related_tablet (writer_after (close env_ok (writer_ready, world_ready) [(5, 50)])) = None"
  by (simp_all add: writer_ready_def world_ready_def op_defs init_defs sample_defs)

text \<open>Lines 216 to 228 in a build without \<open>BE_TEST\<close>: whenever close returns success, the
  tablet infos it leaves are those it was given, followed by one entry for the writer's
  tablet, followed by one entry for the related tablet if the writer has one; and the
  success flag is set.\<close>

lemma close_success_tablet_infos:
  assumes "\<not> be_test e" and "close e (w, s) tv = (Returned OLAP_SUCCESS, w', s', tv')"
  shows "\<exists>tab. tablet w' = Some tab \<and>
           tv' = tv @ [(tablet_id tab, schema_hash tab)] @
                 (case related_tablet w' of None \<Rightarrow> [] | Some rtab \<Rightarrow> [(tablet_id rtab, schema_hash rtab)]) \<and>
           delta_written_success w'"
proof -
  obtain st ws1 where g: "ensure_init e (w, s) = (st, ws1)" by (metis prod.exhaust)
  obtain r w2 s2 where c: "close_cur e ws1 = (r, w2, s2)" by (metis prod_cases3)
  from assms(2) g have st: "st = OLAP_SUCCESS" by (auto simp: close_def split: if_splits)
  from assms(2) g c st have r: "r = Returned OLAP_SUCCESS" by (auto simp: close_def split: if_splits)
  show ?thesis
  proof (cases "related_tablet w2")
    case None
    with assms(2) g c st r have "close_finish e (w2, s2) tv = (Returned OLAP_SUCCESS, w', s', tv')"
      by (simp add: close_def)
    from close_finish_success [OF assms(1) this] show ?thesis .
  next
    case (Some rtab)
    obtain r3 w3 s3 where cr: "close_related e rtab OLAP_SUCCESS (w2, s2) = (r3, w3, s3)"
      by (metis prod_cases3)
    with assms(2) g c st r Some have "close_finish e (w3, s3) tv = (Returned OLAP_SUCCESS, w', s', tv')"
      by (auto simp: close_def split: if_splits)
    from close_finish_success [OF assms(1) this] show ?thesis .
  qed
qed

lemma close_ready_infos:
  "infos_after (close env_ok (writer_ready, world_ready) [(5, 50)]) = [(5, 50), (1, 10)]"
  by (simp add: writer_ready_def world_ready_def op_defs init_defs sample_defs)

subsection \<open>\<open>close\<close> as the first call\<close>

lemma init_first_ok:
  assumes "get_tablet e (req_tablet_id rq) (req_schema_hash rq) = Some tab"
    and "prepare_txn_status e (partition_id rq, txn_id rq, req_tablet_id rq, req_schema_hash rq)
           (load_id rq) = OLAP_SUCCESS"
    and "need_gen_rollup rq \<longrightarrow> schema_change_request tab = None"
    and "construct_pending_data_dir_path tab \<in> dirs s \<or>
         create_dirs_status e (construct_pending_data_dir_path tab) = OLAP_SUCCESS"
    and "get_next_id_status e (data_dir tab) = OLAP_SUCCESS"
    and "rowset_writer_init_status e (writer_context rq tab (next_rowset_id s)) = OLAP_SUCCESS"
  shows "\<exists>s1. init e (open_writer rq, s) =
           (OLAP_SUCCESS,
            (open_writer rq)\<lparr>tablet := Some tab,
               rowset_writer := Some \<lparr>rw_context = Some (writer_context rq tab (next_rowset_id s)), rw_batches = []\<rparr>,
               col_ids := collect_col_ids (tablet_schema tab) (tuple_desc rq),
               schema := Some (tablet_schema tab),
               mem_table := Some (new_MemTable (Some (tablet_schema tab))
                                    (collect_col_ids (tablet_schema tab) (tuple_desc rq)) (tuple_desc rq) (keys_type tab)),
               is_init := True\<rparr>,
            s1) \<and>
           init_runs s1 = Suc (init_runs s) \<and>
           (partition_id rq, txn_id rq, req_tablet_id rq, req_schema_hash rq) \<in> txns s1 \<and>
           next_rowset_id s1 = Suc (next_rowset_id s) \<and>
           saved_metas s1 = saved_metas s"
  using assms
  by (auto simp: init_def init_txn_def init_writer_def prepare_txn_def create_dirs_def
      get_next_id_def emit_def check_dir_existed_def new_RowsetWriter_def open_writer_def Let_def
      init_runs_def)

text \<open>C10, as the claim states it, fails: success of every collaborator does not suffice.
  Where the request tracks a schema change and the tablet reports one, with both tablets
  resolved, both transactions prepared and every other collaborator succeeding, close as
  the first call on a writer just opened does not return success and appends no tablet
  info.\<close>

theorem C10_close_first_related_counterexample:
  "get_tablet env_changing (req_tablet_id req_T_rollup) (req_schema_hash req_T_rollup) = Some tablet_T_changing \<and>
   get_tablet env_changing 2 20 = Some tablet_R \<and>
   prepare_txn_status env_changing (7, 42, 1, 10) (0, 1) = OLAP_SUCCESS \<and>
   prepare_txn_status env_changing (7, 42, 2, 20) (0, 1) = OLAP_SUCCESS \<and>
   create_dirs_status env_changing ''/t1/pending'' = OLAP_SUCCESS \<and>
   create_dirs_status env_changing ''/t2/pending'' = OLAP_SUCCESS \<and>
   get_next_id_status env_changing ''/d1'' = OLAP_SUCCESS \<and>
   rowset_writer_init_status env_changing (writer_context req_T_rollup tablet_T_changing 0) = OLAP_SUCCESS \<and>
   close_status env_changing [] = OLAP_SUCCESS \<and>
   build_ok env_changing \<lparr>rw_context = Some (writer_context req_T_rollup tablet_T_changing 0), rw_batches = [[]]\<rparr> \<and>
   save_status env_changing ''/d1'' 0 = OLAP_SUCCESS \<and>
   \<not> be_test env_changing \<and>
   fst (close env_changing (open_writer req_T_rollup, world0) []) \<noteq> Returned OLAP_SUCCESS \<and>
   infos_after (close env_changing (open_writer req_T_rollup, world0) []) = []"
  by (simp add: op_defs init_defs sample_defs variant_defs)

text \<open>C10, amended. Close as the first call on a writer just opened, in a build without
  \<open>BE_TEST\<close> and for a load that attaches no related tablet (the request does not track a
  schema change, or the tablet reports none), when every collaborator succeeds: the tablet
  is found, the transaction is prepared, the pending directory exists or is created, an id
  is generated, and the rowset writer's init, the memtable's close, the build and the save
  succeed. Then close runs the initialization once, which registers the transaction and
  takes the next rowset id; it closes the empty memtable into the rowset writer, builds a
  rowset of zero rows under that id, saves its meta, sets the success flag and returns
  success with the one tablet info of the primary tablet appended.\<close>

theorem C10_close_first:
  assumes "get_tablet e (req_tablet_id rq) (req_schema_hash rq) = Some tab"
    and "prepare_txn_status e (partition_id rq, txn_id rq, req_tablet_id rq, req_schema_hash rq)
           (load_id rq) = OLAP_SUCCESS"
    and "need_gen_rollup rq \<longrightarrow> schema_change_request tab = None"
    and "construct_pending_data_dir_path tab \<in> dirs s \<or>
         create_dirs_status e (construct_pending_data_dir_path tab) = OLAP_SUCCESS"
    and "get_next_id_status e (data_dir tab) = OLAP_SUCCESS"
    and "rowset_writer_init_status e (writer_context rq tab (next_rowset_id s)) = OLAP_SUCCESS"
    and "close_status e [] = OLAP_SUCCESS"
    and "build_ok e \<lparr>rw_context = Some (writer_context rq tab (next_rowset_id s)), rw_batches = [[]]\<rparr>"
    and "save_status e (data_dir tab) (next_rowset_id s) = OLAP_SUCCESS"
    and "\<not> be_test e"
  shows "fst (close e (open_writer rq, s) tv) = Returned OLAP_SUCCESS \<and>
         infos_after (close e (open_writer rq, s) tv) = tv @ [(tablet_id tab, schema_hash tab)] \<and>
         init_runs (world_after (close e (open_writer rq, s) tv)) = Suc (init_runs s) \<and>
         (partition_id rq, txn_id rq, req_tablet_id rq, req_schema_hash rq)
           \<in> txns (world_after (close e (open_writer rq, s) tv)) \<and>
         next_rowset_id (world_after (close e (open_writer rq, s) tv)) = Suc (next_rowset_id s) \<and>
         MemClose [] \<in> set (calls (world_after (close e (open_writer rq, s) tv))) \<and>
         cur_rowset (writer_after (close e (open_writer rq, s) tv)) =
           Some \<lparr>rowset_meta = writer_context rq tab (next_rowset_id s), rowset_rows = []\<rparr> \<and>
         saved_metas (world_after (close e (open_writer rq, s) tv)) =
           saved_metas s @ [(data_dir tab, next_rowset_id s, writer_context rq tab (next_rowset_id s))] \<and>
         delta_written_success (writer_after (close e (open_writer rq, s) tv))"
proof -
  from init_first_ok [OF assms(1-6)] obtain s1 where
    i: "init e (open_writer rq, s) =
           (OLAP_SUCCESS,
            (open_writer rq)\<lparr>tablet := Some tab,
               rowset_writer := Some \<lparr>rw_context = Some (writer_context rq tab (next_rowset_id s)), rw_batches = []\<rparr>,
               col_ids := collect_col_ids (tablet_schema tab) (tuple_desc rq),
               schema := Some (tablet_schema tab),
               mem_table := Some (new_MemTable (Some (tablet_schema tab))
                                    (collect_col_ids (tablet_schema tab) (tuple_desc rq)) (tuple_desc rq) (keys_type tab)),
               is_init := True\<rparr>,
            s1)"
    and r: "init_runs s1 = Suc (init_runs s)"
    and k: "(partition_id rq, txn_id rq, req_tablet_id rq, req_schema_hash rq) \<in> txns s1"
    and n: "next_rowset_id s1 = Suc (next_rowset_id s)"
    and sm: "saved_metas s1 = saved_metas s"
    by blast
  have ni: "\<not> is_init (open_writer rq)" by (simp add: open_writer_def)
  show ?thesis
    using i r k n sm ni assms(7-10)
    by (simp add: close_def ensure_init_def close_cur_def mem_close_def build_def save_def
        close_finish_def add_tablet_infos_def emit_def new_MemTable_def open_writer_def
        writer_context_def init_runs_def writer_after_def world_after_def infos_after_def Let_def)
qed

text \<open>C10, a witness: with the sample collaborators, which all succeed, close as the first
  call for \<open>req_T\<close> returns success with the one tablet info of tablet 1, after one
  initialization, with the transaction registered, rowset id 0 taken, and a rowset of zero
  rows built and saved.\<close>

theorem C10_close_first_witness:
  "get_tablet env_ok (req_tablet_id req_T) (req_schema_hash req_T) = Some tablet_T \<and>
   \<not> need_gen_rollup req_T \<and> schema_change_request tablet_T = None \<and>
   \<not> be_test env_ok \<and>
   fst (close env_ok (open_writer req_T, world0) []) = Returned OLAP_SUCCESS \<and>
   infos_after (close env_ok (open_writer req_T, world0) []) = [(1, 10)] \<and>
   init_runs (world_after (close env_ok (open_writer req_T, world0) [])) = 1 \<and>
   (7, 42, 1, 10) \<in> txns (world_after (close env_ok (open_writer req_T, world0) [])) \<and>
   next_rowset_id (world_after (close env_ok (open_writer req_T, world0) [])) = 1 \<and>
   map_option rowset_rows (cur_rowset (writer_after (close env_ok (open_writer req_T, world0) []))) = Some [] \<and>
   map (\<lambda>x. fst (snd x)) (saved_metas (world_after (close env_ok (open_writer req_T, world0) []))) = [0] \<and>
   delta_written_success (writer_after (close env_ok (open_writer req_T, world0) []))"
proof -
  have h1: "get_tablet env_ok (req_tablet_id req_T) (req_schema_hash req_T) = Some tablet_T"
    by (simp add: sample_defs)
  have h2: "prepare_txn_status env_ok (partition_id req_T, txn_id req_T, req_tablet_id req_T, req_schema_hash req_T)
           (load_id req_T) = OLAP_SUCCESS"
    by (simp add: env_ok_def)
  have h3: "need_gen_rollup req_T \<longrightarrow> schema_change_request tablet_T = None"
    by (simp add: tablet_T_def)
  have h4: "construct_pending_data_dir_path tablet_T \<in> dirs world0 \<or>
         create_dirs_status env_ok (construct_pending_data_dir_path tablet_T) = OLAP_SUCCESS"
    by (simp add: env_ok_def)
  have h5: "get_next_id_status env_ok (data_dir tablet_T) = OLAP_SUCCESS"
    by (simp add: env_ok_def)
  have h6: "rowset_writer_init_status env_ok (writer_context req_T tablet_T (next_rowset_id world0)) = OLAP_SUCCESS"
    by (simp add: env_ok_def)
  have h7: "close_status env_ok [] = OLAP_SUCCESS" by (simp add: env_ok_def)
  have h8: "build_ok env_ok \<lparr>rw_context = Some (writer_context req_T tablet_T (next_rowset_id world0)), rw_batches = [[]]\<rparr>"
    by (simp add: env_ok_def)
  have h9: "save_status env_ok (data_dir tablet_T) (next_rowset_id world0) = OLAP_SUCCESS"
    by (simp add: env_ok_def)
  have h10: "\<not> be_test env_ok" by (simp add: env_ok_def)
  have k: "(partition_id req_T, txn_id req_T, req_tablet_id req_T, req_schema_hash req_T) = (7, 42, 1, 10)"
    by (simp add: req_T_def)
  have v: "next_rowset_id world0 = 0" "saved_metas world0 = []" "init_runs world0 = 0"
    "tablet_id tablet_T = 1" "schema_hash tablet_T = 10"
    by (simp_all add: world0_def tablet_T_def init_runs_def)
  have h3': "\<not> need_gen_rollup req_T" "schema_change_request tablet_T = None"
    by (simp_all add: req_T_def tablet_T_def)
  from C10_close_first [OF h1 h2 h3 h4 h5 h6 h7 h8 h9 h10, of "[]"] h1 h3' h10
  show ?thesis by (simp add: k v)
qed

subsection \<open>A schema change under way\<close>

text \<open>What the destructor does in general: nothing after a close that returned success;
  otherwise one \<open>delete_txn\<close> for the request's key and the current rowset pointer handed
  over, and the same for the related tablet when the writer has one.\<close>

lemma close_finish_flag:
  "close_finish e (w, s) tv = (Returned OLAP_SUCCESS, w', s', tv') \<Longrightarrow> delta_written_success w'"
  by (auto simp: close_finish_def split: option.splits)

lemma close_success_no_unwind:
  assumes "close e (w, s) tv = (Returned OLAP_SUCCESS, w', s', tv')"
  shows "delta_written_success w' \<and> teardown (w', s') = s'"
proof -
  obtain st ws1 where g: "ensure_init e (w, s) = (st, ws1)" by (metis prod.exhaust)
  obtain r w2 s2 where c: "close_cur e ws1 = (r, w2, s2)" by (metis prod_cases3)
  from assms g have st: "st = OLAP_SUCCESS" by (auto simp: close_def split: if_splits)
  from assms g c st have r: "r = Returned OLAP_SUCCESS" by (auto simp: close_def split: if_splits)
  have "delta_written_success w'"
  proof (cases "related_tablet w2")
    case None
    with assms g c st r have "close_finish e (w2, s2) tv = (Returned OLAP_SUCCESS, w', s', tv')"
      by (simp add: close_def)
    then show ?thesis by (rule close_finish_flag)
  next
    case (Some rtab)
    obtain r3 w3 s3 where cr: "close_related e rtab OLAP_SUCCESS (w2, s2) = (r3, w3, s3)"
      by (metis prod_cases3)
    with assms g c st r Some have "close_finish e (w3, s3) tv = (Returned OLAP_SUCCESS, w', s', tv')"
      by (auto simp: close_def split: if_splits)
    then show ?thesis by (rule close_finish_flag)
  qed
  then show ?thesis by (simp add: teardown_def)
qed

lemma teardown_unwinds:
  assumes "\<not> delta_written_success w"
  shows "txns (teardown (w, s)) =
           txns s - {(partition_id (req w), txn_id (req w), req_tablet_id (req w), req_schema_hash (req w))}
                  - (case related_tablet w of
                       None \<Rightarrow> {}
                     | Some rtab \<Rightarrow> {(partition_id (req w), txn_id (req w), tablet_id rtab, schema_hash rtab)}) \<and>
         unused_rowsets (teardown (w, s)) =
           unused_rowsets s @ [cur_rowset w] @
           (case related_tablet w of None \<Rightarrow> [] | Some rtab \<Rightarrow> [related_rowset w])"
  using assms
  by (auto simp: teardown_def garbage_collection_def delete_txn_def add_unused_rowset_def emit_def
      Let_def split: option.splits)

text \<open>C1, evaluated where the code departs from the claim. The request tracks a schema
  change, tablet 1 reports one to tablet 2, and the tablet manager does not resolve tablet
  2. The first write initializes the writer and succeeds; \<open>init\<close> has called
  \<open>prepare_txn\<close> for tablet 2, and both transactions are registered, while
  \<open>_related_tablet\<close> is null. Close is never called, the success flag is false, and the
  teardown unregisters the transaction of tablet 1 only: the transaction prepared for
  tablet 2 stays registered.\<close>

theorem C1_related_txn_left_registered:
  "fst (run env_related_gone [Write [30, 10, 20]] (open_writer req_T_rollup, world0, [])) = [Returned OLAP_SUCCESS] \<and>
   PrepareTxn (7, 42, 2, 20) (0, 1) \<in>
     set (calls (world_after (run env_related_gone [Write [30, 10, 20]] (open_writer req_T_rollup, world0, [])))) \<and>
   txns (world_after (run env_related_gone [Write [30, 10, 20]] (open_writer req_T_rollup, world0, []))) = {(7, 42, 1, 10), (7, 42, 2, 20)} \<and>
   \<not> delta_written_success (writer_after (run env_related_gone [Write [30, 10, 20]] (open_writer req_T_rollup, world0, []))) \<and>
   txns (teardown (writer_after (run env_related_gone [Write [30, 10, 20]] (open_writer req_T_rollup, world0, [])),
                   world_after (run env_related_gone [Write [30, 10, 20]] (open_writer req_T_rollup, world0, [])))) = {(7, 42, 2, 20)}"
  by (simp add: op_defs init_defs sample_defs variant_defs insert_commute)

text \<open>C6, evaluated where the code departs from the claim. The request tracks a schema
  change, tablet 1 reports one to tablet 2, the tablet manager resolves both and every
  collaborator succeeds. Close, as the first call, saves the meta of the primary rowset
  (rowset id 0) and, with the related tablet present, goes on to the second save; nothing
  has assigned \<open>_related_rowset\<close>, the conversion being commented out, so close
  dereferences a null pointer: it returns no status, only the one meta is saved and the
  success flag is not set.\<close>

theorem C6_close_dereferences_null_related_rowset:
  "fst (close env_changing (open_writer req_T_rollup, world0) []) = NullDeref \<and>
   related_tablet (writer_after (close env_changing (open_writer req_T_rollup, world0) [])) = Some tablet_R \<and>
   related_rowset (writer_after (close env_changing (open_writer req_T_rollup, world0) [])) = None \<and>
   map (\<lambda>x. fst (snd x)) (saved_metas (world_after (close env_changing (open_writer req_T_rollup, world0) []))) = [0] \<and>
   \<not> delta_written_success (writer_after (close env_changing (open_writer req_T_rollup, world0) []))"
  by (simp add: op_defs init_defs sample_defs variant_defs)

text \<open>Nothing assigns \<open>_related_rowset\<close>: no write and no close changes it, so it is null
  on every writer that operations on a writer just opened lead to, and on such a writer a
  close that returns success has no related tablet.\<close>

lemma init_writer_related_rowset:
  "related_rowset (fst (snd (init_writer e tab (w, s)))) = related_rowset w"
  by (auto simp: init_writer_def get_next_id_def Let_def split: prod.splits)

lemma init_related_rowset:
  "related_rowset (fst (snd (init e (w, s)))) = related_rowset w"
proof (cases "get_tablet e (req_tablet_id (req w)) (req_schema_hash (req w))")
  case None
  then show ?thesis by (simp add: init_def Let_def)
next
  case (Some tab)
  let ?s1 = "emit (GetTablet (req_tablet_id (req w)) (req_schema_hash (req w))) (emit Init s)"
  obtain st w2 s2 where it: "init_txn e tab (w\<lparr>tablet := Some tab\<rparr>, ?s1) = (st, w2, s2)"
    by (metis prod_cases3)
  from init_txn_keeps [OF it] have "related_rowset w2 = related_rowset w" by simp
  then show ?thesis
    using Some it init_writer_related_rowset [of e tab w2 s2] by (simp add: init_def Let_def)
qed

lemma ensure_init_related_rowset:
  "related_rowset (fst (snd (ensure_init e (w, s)))) = related_rowset w"
  by (simp add: ensure_init_def init_related_rowset)

lemma write_row_related_rowset:
  "related_rowset (fst (snd (write_row e t (w, s)))) = related_rowset w"
  by (auto simp: write_row_def mem_flush_def Let_def split: prod.splits option.splits)

lemma close_cur_related:
  "related_rowset (fst (snd (close_cur e (w, s)))) = related_rowset w \<and>
   related_tablet (fst (snd (close_cur e (w, s)))) = related_tablet w"
  by (auto simp: close_cur_def mem_close_def save_def Let_def split: prod.splits option.splits)

lemma close_related_keeps:
  "fst (snd (close_related e rtab res (w, s))) = w"
  by (auto simp: close_related_def create_dirs_def save_def Let_def split: prod.splits option.splits)

lemma close_related_null:
  "related_rowset w = None \<Longrightarrow> fst (close_related e rtab res (w, s)) \<noteq> Returned OLAP_SUCCESS"
  by (auto simp: close_related_def create_dirs_def Let_def split: prod.splits)

lemma close_finish_related:
  "related_rowset (writer_after (close_finish e (w, s) tv)) = related_rowset w \<and>
   related_tablet (writer_after (close_finish e (w, s) tv)) = related_tablet w"
  by (auto simp: close_finish_def writer_after_def split: option.splits)

lemma close_related_rowset:
  "related_rowset (writer_after (close e (w, s) tv)) = related_rowset w"
proof -
  obtain st w1 s1 where g: "ensure_init e (w, s) = (st, w1, s1)" by (metis prod_cases3)
  with ensure_init_related_rowset [of e w s] have r1: "related_rowset w1 = related_rowset w" by simp
  obtain r w2 s2 where c: "close_cur e (w1, s1) = (r, w2, s2)" by (metis prod_cases3)
  with close_cur_related [of e w1 s1] have r2: "related_rowset w2 = related_rowset w1" by simp
  show ?thesis
  proof (cases "related_tablet w2")
    case None
    then show ?thesis using g c r1 r2 close_finish_related [of e w2 s2 tv]
      by (simp add: close_def writer_after_def)
  next
    case (Some rtab)
    obtain r3 w3 s3 where cr: "close_related e rtab OLAP_SUCCESS (w2, s2) = (r3, w3, s3)"
      by (metis prod_cases3)
    with close_related_keeps [of e rtab OLAP_SUCCESS w2 s2] have "w3 = w2" by simp
    then show ?thesis using Some g c cr r1 r2 close_finish_related [of e w2 s3 tv]
      by (simp add: close_def writer_after_def)
  qed
qed

lemma run_related_rowset:
  "related_rowset (writer_after (run e ops (w, s, tv))) = related_rowset w"
proof (induction ops arbitrary: w s tv)
  case Nil
  then show ?case by (simp add: writer_after_def)
next
  case (Cons x ops)
  show ?case
  proof (cases x)
    case (Write t)
    obtain r w1 s1 where wt: "write_tuple e t (w, s) = (r, w1, s1)" by (metis prod_cases3)
    obtain st w0 s0 where g: "ensure_init e (w, s) = (st, w0, s0)" by (metis prod_cases3)
    with ensure_init_related_rowset [of e w s] have "related_rowset w0 = related_rowset w" by simp
    with wt g write_row_related_rowset [of e t w0 s0] have r1: "related_rowset w1 = related_rowset w"
      by (auto simp: write_tuple_def split: if_splits)
    from Cons.IH [of w1 s1 tv] show ?thesis using Write wt r1
      by (auto simp: writer_after_def split: prod.splits)
  next
    case Close
    obtain r w1 s1 tv1 where cl: "close e (w, s) tv = (r, w1, s1, tv1)" by (metis prod_cases4)
    with close_related_rowset [of e w s tv] have r1: "related_rowset w1 = related_rowset w"
      by (simp add: writer_after_def)
    from Cons.IH [of w1 s1 tv1] show ?thesis using Close cl r1
      by (auto simp: writer_after_def split: prod.splits)
  qed
qed

lemma close_success_no_related:
  assumes "related_rowset w = None" and "close e (w, s) tv = (Returned OLAP_SUCCESS, w', s', tv')"
  shows "related_tablet w' = None"
proof -
  obtain st w1 s1 where g: "ensure_init e (w, s) = (st, w1, s1)" by (metis prod_cases3)
  with ensure_init_related_rowset [of e w s] assms(1) have r1: "related_rowset w1 = None" by simp
  obtain r w2 s2 where c: "close_cur e (w1, s1) = (r, w2, s2)" by (metis prod_cases3)
  with close_cur_related [of e w1 s1] r1 have r2: "related_rowset w2 = None" by simp
  from assms(2) g have st: "st = OLAP_SUCCESS" by (auto simp: close_def split: if_splits)
  from assms(2) g c st have r: "r = Returned OLAP_SUCCESS" by (auto simp: close_def split: if_splits)
  show ?thesis
  proof (cases "related_tablet w2")
    case None
    with assms(2) g c st r have "close_finish e (w2, s2) tv = (Returned OLAP_SUCCESS, w', s', tv')"
      by (simp add: close_def)
    with close_finish_related [of e w2 s2 tv] None show ?thesis by (simp add: writer_after_def)
  next
    case (Some rtab)
    obtain r3 w3 s3 where cr: "close_related e rtab OLAP_SUCCESS (w2, s2) = (r3, w3, s3)"
      by (metis prod_cases3)
    with close_related_null [OF r2, of e rtab OLAP_SUCCESS s2] have "r3 \<noteq> Returned OLAP_SUCCESS" by simp
    with assms(2) g c st r Some cr show ?thesis by (simp add: close_def)
  qed
qed

text \<open>C7, evaluated where the code departs from the claim. The request tracks a schema
  change, tablet 1 reports one to tablet 2, the tablet manager resolves both and every
  collaborator succeeds; the caller's collection holds one tablet info. A write succeeds.
  Close then closes the memtable, builds the rowset, saves its meta and creates the pending
  directory of tablet 2, and dereferences the null \<open>_related_rowset\<close>: it does not return,
  the success flag stays unset and nothing is appended to the collection. Lines 216 to 225,
  had close reached them in that state, append the entries of tablet 1 and of tablet 2.\<close>

theorem C7_dual_write_returns_no_infos:
  "fst (run env_changing [Write [30, 10, 20], Close] (open_writer req_T_rollup, world0, [(5, 50)])) =
     [Returned OLAP_SUCCESS, NullDeref] \<and>
   infos_after (run env_changing [Write [30, 10, 20], Close] (open_writer req_T_rollup, world0, [(5, 50)])) =
     [(5, 50)] \<and>
   \<not> delta_written_success
       (writer_after (run env_changing [Write [30, 10, 20], Close] (open_writer req_T_rollup, world0, [(5, 50)]))) \<and>
   drop 9 (calls (world_after
       (run env_changing [Write [30, 10, 20], Close] (open_writer req_T_rollup, world0, [(5, 50)])))) =
     [MemClose [[Some 10, Some 20, Some 30]], Build, SaveMeta ''/d1'' 0, CreateDirs ''/t2/pending''] \<and>
   add_tablet_infos env_changing
       (writer_after (run env_changing [Write [30, 10, 20], Close] (open_writer req_T_rollup, world0, [(5, 50)])))
       [(5, 50)] = Some [(5, 50), (1, 10), (2, 20)]"
  by (simp add: op_defs init_defs sample_defs variant_defs)

text \<open>The first \<open>prepare_txn\<close> of \<open>init\<close> is propagated: when it fails, \<open>init\<close>
  returns its status.\<close>

lemma init_primary_prepare_failure:
  assumes "get_tablet e (req_tablet_id (req w)) (req_schema_hash (req w)) = Some tab"
    and "prepare_txn_status e (partition_id (req w), txn_id (req w), req_tablet_id (req w),
           req_schema_hash (req w)) (load_id (req w)) \<noteq> OLAP_SUCCESS"
  shows "fst (init e (w, s)) =
           prepare_txn_status e (partition_id (req w), txn_id (req w), req_tablet_id (req w),
             req_schema_hash (req w)) (load_id (req w))"
  using assms by (simp add: init_def init_txn_def prepare_txn_def emit_def Let_def)

text \<open>C8, evaluated where the code departs from the claim. The request tracks a schema
  change, tablet 1 reports one to tablet 2, and the transaction manager refuses the
  transaction for tablet 2 while every other collaborator succeeds. \<open>init\<close> calls
  \<open>prepare_txn\<close> for tablet 2, drops the status it returns, carries on and returns
  success with the writer initialized.\<close>

theorem C8_related_prepare_status_dropped:
  "prepare_txn_status env_related_refused (7, 42, 2, 20) (0, 1) = OLAP_ERR_OTHER (- 1) \<and>
   fst (init env_related_refused (open_writer req_T_rollup, world0)) = OLAP_SUCCESS \<and>
   is_init (fst (snd (init env_related_refused (open_writer req_T_rollup, world0)))) \<and>
   PrepareTxn (7, 42, 2, 20) (0, 1) \<in>
     set (calls (snd (snd (init env_related_refused (open_writer req_T_rollup, world0)))))"
  by (simp add: init_defs sample_defs variant_defs)

end
